theory Spec2Isabelle
  imports Main
begin

section \<open>Python values and the operations the source applies to them\<close>

text \<open>
  The documents handled by \<^verbatim>\<open>pytube/contrib/search.py\<close> and \<^verbatim>\<open>pytube/metadata.py\<close>
  are what \<^verbatim>\<open>json.loads\<close> produces: dicts, lists, strings, integers, booleans and
  \<^verbatim>\<open>None\<close>. A dict is an association list whose keys are distinct (a Python dict has
  no duplicate key); lookup takes the first binding. Floating point numbers are left out:
  no field the source reads is one. A \<open>char\<close> stands for one code point below 256.
\<close>

datatype json =
    JNull
  | JBool bool
  | JInt int
  | JStr string
  | JList "json list"
  | JObj "(string \<times> json) list"

text \<open>The exceptions the source can raise; \<open>Other\<close> is any exception of a collaborator.\<close>

datatype py_error =
    KeyError
  | IndexError
  | TypeError
  | ValueError
  | AttributeError
  | Other string

text \<open>Sequencing of steps that may raise: the first exception ends the computation.\<close>

definition bnd :: "py_error + 'a \<Rightarrow> ('a \<Rightarrow> py_error + 'b) \<Rightarrow> py_error + 'b" where
  "bnd m f = (case m of Inl e \<Rightarrow> Inl e | Inr x \<Rightarrow> f x)"

text \<open>Truth value of an object, as \<^verbatim>\<open>if x:\<close> and \<^verbatim>\<open>not x\<close> test it.\<close>

fun truthy :: "json \<Rightarrow> bool" where
  "truthy JNull = False"
| "truthy (JBool b) = b"
| "truthy (JInt i) = (i \<noteq> 0)"
| "truthy (JStr s) = (s \<noteq> [])"
| "truthy (JList xs) = (xs \<noteq> [])"
| "truthy (JObj kvs) = (kvs \<noteq> [])"

text \<open>\<^verbatim>\<open>x[k]\<close> with a string key, and \<^verbatim>\<open>x[0]\<close>.\<close>

datatype subscript = Key string | Index0

fun getitem :: "json \<Rightarrow> subscript \<Rightarrow> py_error + json" where
  "getitem (JObj kvs) (Key k) = (case map_of kvs k of None \<Rightarrow> Inl KeyError | Some v \<Rightarrow> Inr v)"
| "getitem (JObj kvs) Index0 = Inl KeyError"
| "getitem (JList xs) Index0 = (case xs of [] \<Rightarrow> Inl IndexError | x # _ \<Rightarrow> Inr x)"
| "getitem (JStr s) Index0 = (case s of [] \<Rightarrow> Inl IndexError | c # _ \<Rightarrow> Inr (JStr [c]))"
| "getitem _ _ = Inl TypeError"

text \<open>A chain of subscripts \<^verbatim>\<open>x[a][b][c]\<close>, evaluated from the left.\<close>

fun getpath :: "json \<Rightarrow> subscript list \<Rightarrow> py_error + json" where
  "getpath v [] = Inr v"
| "getpath v (k # ks) = bnd (getitem v k) (\<lambda>w. getpath w ks)"

text \<open>\<^verbatim>\<open>sub in s\<close> on strings.\<close>

fun is_prefix :: "string \<Rightarrow> string \<Rightarrow> bool" where
  "is_prefix [] ys = True"
| "is_prefix (x # xs) [] = False"
| "is_prefix (x # xs) (y # ys) = (x = y \<and> is_prefix xs ys)"

fun is_substring :: "string \<Rightarrow> string \<Rightarrow> bool" where
  "is_substring sub [] = (sub = [])"
| "is_substring sub (y # ys) = (is_prefix sub (y # ys) \<or> is_substring sub ys)"

text \<open>\<^verbatim>\<open>k in x\<close> for a string \<open>k\<close>: a key of a dict, an element of a list, a substring
  of a string; the other objects are not containers.\<close>

fun py_in :: "string \<Rightarrow> json \<Rightarrow> py_error + bool" where
  "py_in k (JObj kvs) = Inr (k \<in> set (map fst kvs))"
| "py_in k (JList xs) = Inr (JStr k \<in> set xs)"
| "py_in k (JStr s) = Inr (is_substring k s)"
| "py_in k _ = Inl TypeError"

text \<open>\<^verbatim>\<open>x.get(k, default)\<close>: only a dict has the method.\<close>

fun py_get :: "json \<Rightarrow> string \<Rightarrow> json \<Rightarrow> py_error + json" where
  "py_get (JObj kvs) k d = Inr (case map_of kvs k of None \<Rightarrow> d | Some v \<Rightarrow> v)"
| "py_get _ k d = Inl AttributeError"

text \<open>The items a \<^verbatim>\<open>for\<close> loop visits: the elements of a list, the keys of a dict, the
  characters of a string.\<close>

fun py_iter :: "json \<Rightarrow> py_error + json list" where
  "py_iter (JList xs) = Inr xs"
| "py_iter (JObj kvs) = Inr (map (\<lambda>kv. JStr (fst kv)) kvs)"
| "py_iter (JStr s) = Inr (map (\<lambda>c. JStr [c]) s)"
| "py_iter _ = Inl TypeError"

section \<open>\<^verbatim>\<open>pytube/metadata.py\<close>: YouTubeMetadata\<close>

text \<open>\<^verbatim>\<open>"".join(list(map(lambda run: run["text"], runs)))\<close>: the map subscripts every run,
  then \<open>join\<close> requires every item to be a string.\<close>

fun map_text :: "json list \<Rightarrow> py_error + json list" where
  "map_text [] = Inr []"
| "map_text (run # runs) =
     bnd (getitem run (Key ''text'')) (\<lambda>t. bnd (map_text runs) (\<lambda>ts. Inr (t # ts)))"

fun join_empty :: "json list \<Rightarrow> py_error + string" where
  "join_empty [] = Inr []"
| "join_empty (JStr s # ts) = bnd (join_empty ts) (\<lambda>r. Inr (s @ r))"
| "join_empty (_ # ts) = Inl TypeError"

text \<open>One item of the action list updates \<^verbatim>\<open>self._metadata\<close>; the four tests are
  independent \<^verbatim>\<open>if\<close>s, in the source's order.\<close>

type_synonym metadata = "(string \<times> json) list"

definition setitem :: "metadata \<Rightarrow> string \<Rightarrow> json \<Rightarrow> metadata" where
  "setitem m k v = (if k \<in> set (map fst m) then map (\<lambda>kv. if fst kv = k then (k, v) else kv) m
                    else m @ [(k, v)])"

definition when_in :: "string \<Rightarrow> json \<Rightarrow> metadata \<Rightarrow> (metadata \<Rightarrow> py_error + metadata)
    \<Rightarrow> py_error + metadata" where
  "when_in k action m f = bnd (py_in k action) (\<lambda>b. if b then f m else Inr m)"

definition update_viewership :: "json \<Rightarrow> metadata \<Rightarrow> py_error + metadata" where
  "update_viewership action m =
     bnd (getpath action [Key ''updateViewershipAction'', Key ''viewCount'',
            Key ''videoViewCountRenderer'', Key ''originalViewCount''])
       (\<lambda>v. Inr (setitem m ''viewCount'' v))"

definition update_title :: "json \<Rightarrow> metadata \<Rightarrow> py_error + metadata" where
  "update_title action m =
     bnd (getpath action [Key ''updateTitleAction'', Key ''title'', Key ''runs'', Index0,
            Key ''text''])
       (\<lambda>v. Inr (setitem m ''title'' v))"

definition update_date :: "json \<Rightarrow> metadata \<Rightarrow> py_error + metadata" where
  "update_date action m =
     bnd (getpath action [Key ''updateDateAction'', Key ''dateText'', Key ''simpleText''])
       (\<lambda>v. Inr (setitem m ''relativeDate'' v))"

definition update_description :: "json \<Rightarrow> metadata \<Rightarrow> py_error + metadata" where
  "update_description action m =
     bnd (getpath action [Key ''updateDescriptionAction'', Key ''description'', Key ''runs''])
       (\<lambda>runs. bnd (py_iter runs)
       (\<lambda>rs. bnd (map_text rs)
       (\<lambda>ts. bnd (join_empty ts)
       (\<lambda>d. Inr (setitem m ''description'' (JStr d))))))"

definition parse_action :: "json \<Rightarrow> metadata \<Rightarrow> py_error + metadata" where
  "parse_action action m0 =
     bnd (when_in ''updateViewershipAction'' action m0 (update_viewership action))
       (\<lambda>m1. bnd (when_in ''updateTitleAction'' action m1 (update_title action))
       (\<lambda>m2. bnd (when_in ''updateDateAction'' action m2 (update_date action))
       (\<lambda>m3. when_in ''updateDescriptionAction'' action m3 (update_description action))))"

fun parse_actions :: "json list \<Rightarrow> metadata \<Rightarrow> py_error + metadata" where
  "parse_actions [] m = Inr m"
| "parse_actions (action # actions) m = bnd (parse_action action m) (parse_actions actions)"

text \<open>\<^verbatim>\<open>__parse_metadata\<close>, started by the constructor on the empty \<^verbatim>\<open>_metadata\<close>.\<close>

definition parse_metadata :: "json \<Rightarrow> py_error + metadata" where
  "parse_metadata metadata =
     bnd (py_get metadata ''actions'' (JList [])) (\<lambda>actions.
     bnd (py_iter actions) (\<lambda>as. parse_actions as []))"

record youtube_metadata =
  raw_metadata :: json
  metadata :: metadata

definition YouTubeMetadata :: "json \<Rightarrow> py_error + youtube_metadata" where
  "YouTubeMetadata md =
     bnd (parse_metadata md) (\<lambda>m. Inr \<lparr>raw_metadata = md, metadata = m\<rparr>)"

text \<open>\<^verbatim>\<open>__getitem__\<close> and \<^verbatim>\<open>get\<close>.\<close>

definition md_getitem :: "youtube_metadata \<Rightarrow> string \<Rightarrow> py_error + json" where
  "md_getitem y k = (case map_of (metadata y) k of None \<Rightarrow> Inl KeyError | Some v \<Rightarrow> Inr v)"

definition md_get :: "youtube_metadata \<Rightarrow> string \<Rightarrow> json \<Rightarrow> json" where
  "md_get y k d = (case map_of (metadata y) k of None \<Rightarrow> d | Some v \<Rightarrow> v)"

section \<open>\<^verbatim>\<open>pytube/contrib/search.py\<close>: strings and numbers\<close>

text \<open>\<^verbatim>\<open>str.split()\<close> with no argument cuts at runs of whitespace and yields no empty
  word; the whitespace characters below code point 256 are listed.\<close>

definition is_space :: "char \<Rightarrow> bool" where
  "is_space c = (c \<in> set [CHR 0x09, CHR 0x0A, CHR 0x0B, CHR 0x0C, CHR 0x0D, CHR 0x1C, CHR 0x1D,
                           CHR 0x1E, CHR 0x1F, CHR 0x20, CHR 0x85, CHR 0xA0])"

fun words_from :: "string \<Rightarrow> string \<Rightarrow> string list" where
  "words_from w [] = (if w = [] then [] else [w])"
| "words_from w (c # cs) =
     (if is_space c then (if w = [] then words_from [] cs else w # words_from [] cs)
      else words_from (w @ [c]) cs)"

text \<open>The first argument of \<open>words_from\<close> is the word being read.\<close>

definition split_words :: "string \<Rightarrow> string list" where
  "split_words s = words_from [] s"

text \<open>\<^verbatim>\<open>x.split()\<close>: only a string has the method.\<close>

fun py_split :: "json \<Rightarrow> py_error + string list" where
  "py_split (JStr s) = Inr (split_words s)"
| "py_split _ = Inl AttributeError"

text \<open>\<^verbatim>\<open>words[0]\<close> on the list \<open>split\<close> returned.\<close>

fun first_word :: "string list \<Rightarrow> py_error + string" where
  "first_word [] = Inl IndexError"
| "first_word (w # ws) = Inr w"

text \<open>\<^verbatim>\<open>s.replace(',', '')\<close> deletes every comma.\<close>

definition remove_commas :: "string \<Rightarrow> string" where
  "remove_commas s = filter (\<lambda>c. c \<noteq> CHR '','') s"

text \<open>\<^verbatim>\<open>int(s)\<close> on a string: surrounding whitespace is dropped, then an optional sign and
  decimal digits, where single underscores may separate digits. Everything else is a
  ValueError. (The bound some interpreters put on the number of digits is not modelled.)\<close>

definition is_digit :: "char \<Rightarrow> bool" where
  "is_digit c = (c \<in> set ''0123456789'')"

definition digit_value :: "char \<Rightarrow> int" where
  "digit_value c = int (of_char c) - 48"

fun read_digits :: "string \<Rightarrow> int \<Rightarrow> py_error + int" where
  "read_digits [] acc = Inr acc"
| "read_digits [c] acc = (if is_digit c then Inr (10 * acc + digit_value c) else Inl ValueError)"
| "read_digits (c # d # cs) acc =
     (if is_digit c then read_digits (d # cs) (10 * acc + digit_value c)
      else if c = CHR ''_'' \<and> is_digit d then read_digits cs (10 * acc + digit_value d)
      else Inl ValueError)"

definition read_number :: "string \<Rightarrow> py_error + int" where
  "read_number s = (case s of [] \<Rightarrow> Inl ValueError
     | c # cs \<Rightarrow> if is_digit c then read_digits cs (digit_value c) else Inl ValueError)"

definition strip :: "string \<Rightarrow> string" where
  "strip s = rev (dropWhile is_space (rev (dropWhile is_space s)))"

definition py_int :: "string \<Rightarrow> py_error + int" where
  "py_int s = (case strip s of
       [] \<Rightarrow> Inl ValueError
     | c # cs \<Rightarrow>
         if c = CHR ''-'' then bnd (read_number cs) (\<lambda>n. Inr (- n))
         else if c = CHR ''+'' then read_number cs
         else read_number (c # cs))"

section \<open>\<^verbatim>\<open>pytube/contrib/search.py\<close>: the collaborators\<close>

datatype params = FILTER_CHANNEL | FILTER_PLAYLIST | FILTER_VIDEO | FILTER_MOVIE

text \<open>The objects \<^verbatim>\<open>_parse_video\<close> and \<^verbatim>\<open>_parse_channel\<close> return: a \<^verbatim>\<open>YouTube\<close> built
  from the watch URL, whose \<open>author\<close> and \<open>title\<close> are then assigned, and a \<^verbatim>\<open>Channel\<close>
  built from the channel URL.\<close>

datatype result =
    YouTube string json json
  | Channel string

text \<open>
  The code of \<^verbatim>\<open>InnerTube.search\<close>, of the constructors \<^verbatim>\<open>YouTube\<close> and \<^verbatim>\<open>Channel\<close>
  and of \<^verbatim>\<open>str\<close> on an object that is not a string is outside these files; they are
  parameters. \<open>innertube_search\<close> takes the number of earlier requests of the session
  first, so two requests with equal arguments may be answered differently; a constructor
  gives the exception it raises on a URL, if any; \<open>format_value\<close> renders a value inside
  an f-string.
\<close>

record env =
  innertube_search :: "nat \<Rightarrow> string \<Rightarrow> params option \<Rightarrow> json \<Rightarrow> py_error + json"
  YouTube_init :: "string \<Rightarrow> py_error option"
  Channel_init :: "string \<Rightarrow> py_error option"
  format_value :: "json \<Rightarrow> string"

definition fstring :: "env \<Rightarrow> string \<Rightarrow> json \<Rightarrow> string" where
  "fstring env pre v = pre @ (case v of JStr s \<Rightarrow> s | _ \<Rightarrow> format_value env v)"

section \<open>\<^verbatim>\<open>Search._parse_video\<close> and \<^verbatim>\<open>Search._parse_channel\<close>\<close>

text \<open>Lines 105 to 109: the number in a view-count text.\<close>

definition count_of_text :: "json \<Rightarrow> py_error + int" where
  "count_of_text view_count_text =
     bnd (py_split view_count_text) (\<lambda>ws.
     bnd (first_word ws) (\<lambda>w.
       if remove_commas w = ''No'' then Inr 0 else py_int (remove_commas w)))"

text \<open>Lines 99 to 111: the view count of a renderer.\<close>

definition view_count_of :: "json \<Rightarrow> py_error + int" where
  "view_count_of renderer =
     bnd (py_in ''viewCountText'' renderer) (\<lambda>present.
       if present then
         bnd (getitem renderer (Key ''viewCountText'')) (\<lambda>vct.
         bnd (py_in ''runs'' vct) (\<lambda>has_runs.
         bnd (if has_runs then getpath vct [Key ''runs'', Index0, Key ''text'']
              else getitem vct (Key ''simpleText''))
           count_of_text))
       else Inr 0)"

text \<open>Lines 113 to 116.\<close>

definition length_of :: "json \<Rightarrow> py_error + json" where
  "length_of renderer =
     bnd (py_in ''lengthText'' renderer) (\<lambda>present.
       if present then getpath renderer [Key ''lengthText'', Key ''simpleText'']
       else Inr JNull)"

record video_metadata =
  md_id :: json
  md_url :: string
  md_title :: json
  md_channel_name :: json
  md_channel_url :: json
  md_view_count :: int
  md_length :: json

text \<open>Lines 91 to 126: the local dict \<^verbatim>\<open>metadata\<close>, each field in the order the source
  computes it.\<close>

definition video_details_metadata :: "env \<Rightarrow> json \<Rightarrow> py_error + video_metadata" where
  "video_details_metadata env video_details =
     bnd (getitem video_details (Key ''videoRenderer'')) (\<lambda>renderer.
     bnd (getitem renderer (Key ''videoId'')) (\<lambda>vid.
     bnd (getpath renderer [Key ''title'', Key ''runs'', Index0, Key ''text'']) (\<lambda>title.
     bnd (getpath renderer [Key ''ownerText'', Key ''runs'', Index0, Key ''text''])
       (\<lambda>channel_name.
     bnd (getpath renderer [Key ''ownerText'', Key ''runs'', Index0, Key ''navigationEndpoint'',
            Key ''commandMetadata'', Key ''webCommandMetadata'', Key ''url''])
       (\<lambda>channel_uri.
     bnd (view_count_of renderer) (\<lambda>view_count.
     bnd (length_of renderer) (\<lambda>len.
       Inr \<lparr>md_id = vid,
            md_url = fstring env ''https://www.youtube.com/watch?v='' vid,
            md_title = title,
            md_channel_name = channel_name,
            md_channel_url = channel_uri,
            md_view_count = view_count,
            md_length = len\<rparr>)))))))"

definition parse_video :: "env \<Rightarrow> json \<Rightarrow> py_error + result" where
  "parse_video env video_details =
     bnd (video_details_metadata env video_details) (\<lambda>md.
       case YouTube_init env (md_url md) of
         Some e \<Rightarrow> Inl e
       | None \<Rightarrow> Inr (YouTube (md_url md) (md_channel_name md) (md_title md)))"

definition parse_channel :: "env \<Rightarrow> json \<Rightarrow> py_error + result" where
  "parse_channel env channel_details =
     bnd (getitem channel_details (Key ''channelRenderer'')) (\<lambda>renderer.
     bnd (getitem renderer (Key ''channelId'')) (\<lambda>channel_id.
       case Channel_init env (fstring env ''https://www.youtube.com/channel/'' channel_id) of
         Some e \<Rightarrow> Inl e
       | None \<Rightarrow> Inr (Channel (fstring env ''https://www.youtube.com/channel/'' channel_id))))"

section \<open>\<^verbatim>\<open>Search.fetch_and_parse\<close>: the parse of one document\<close>

text \<open>Lines 156 to 159: the sections, by the first path and, on a KeyError there, by the
  second. Another exception of the first path is not caught.\<close>

definition locate_sections :: "json \<Rightarrow> py_error + json" where
  "locate_sections raw_results =
     (case getpath raw_results [Key ''contents'', Key ''twoColumnSearchResultsRenderer'',
             Key ''primaryContents'', Key ''sectionListRenderer'', Key ''contents''] of
        Inr sections \<Rightarrow> Inr sections
      | Inl e \<Rightarrow>
          if e = KeyError then
            getpath raw_results [Key ''onResponseReceivedCommands'', Index0,
              Key ''appendContinuationItemsAction'', Key ''continuationItems'']
          else Inl e)"

text \<open>Lines 160 to 166: the loop over the sections keeps the last renderer of each kind;
  \<open>JNull\<close> is \<^verbatim>\<open>None\<close>.\<close>

fun scan_sections :: "json list \<Rightarrow> json \<Rightarrow> json \<Rightarrow> py_error + json \<times> json" where
  "scan_sections [] item_renderer continuation_renderer =
     Inr (item_renderer, continuation_renderer)"
| "scan_sections (s # ss) item_renderer continuation_renderer =
     bnd (py_in ''itemSectionRenderer'' s) (\<lambda>b1.
     bnd (if b1 then getitem s (Key ''itemSectionRenderer'') else Inr item_renderer) (\<lambda>ir.
     bnd (py_in ''continuationItemRenderer'' s) (\<lambda>b2.
     bnd (if b2 then getitem s (Key ''continuationItemRenderer'')
          else Inr continuation_renderer) (\<lambda>cr.
       scan_sections ss ir cr))))"

text \<open>Lines 169 to 172.\<close>

definition next_continuation_of :: "json \<Rightarrow> py_error + json" where
  "next_continuation_of continuation_renderer =
     (if truthy continuation_renderer then
        getpath continuation_renderer [Key ''continuationEndpoint'',
          Key ''continuationCommand'', Key ''token'']
      else Inr JNull)"

text \<open>Lines 184 to 231: the chain of tests on one entry. \<open>None\<close> is \<^verbatim>\<open>continue\<close>; the
  warnings written to the logger change neither the results nor the session. The first
  test calls \<^verbatim>\<open>details.get\<close>, which only a dict has, so the later tests are on a dict.\<close>

definition has_key :: "string \<Rightarrow> (string \<times> json) list \<Rightarrow> bool" where
  "has_key k kvs = (k \<in> set (map fst kvs))"

fun parse_entry :: "env \<Rightarrow> json \<Rightarrow> py_error + result option" where
  "parse_entry env (JObj kvs) =
     bnd (py_get (JObj kvs) ''searchPyvRenderer'' (JObj [])) (\<lambda>pyv.
     bnd (py_get pyv ''ads'' JNull) (\<lambda>ads.
       if truthy ads then Inr None
       else if has_key ''shelfRenderer'' kvs then Inr None
       else if has_key ''radioRenderer'' kvs then Inr None
       else if has_key ''playlistRenderer'' kvs then Inr None
       else if has_key ''horizontalCardListRenderer'' kvs then Inr None
       else if has_key ''didYouMeanRenderer'' kvs then Inr None
       else if has_key ''backgroundPromoRenderer'' kvs then Inr None
       else if has_key ''videoRenderer'' kvs then
         bnd (parse_video env (JObj kvs)) (\<lambda>r. Inr (Some r))
       else if has_key ''channelRenderer'' kvs then
         bnd (parse_channel env (JObj kvs)) (\<lambda>r. Inr (Some r))
       else Inr None))"
| "parse_entry env _ = Inl AttributeError"

text \<open>Lines 182 to 233: the loop over the entries, \<open>results\<close> being the list appended to.\<close>

fun parse_contents :: "env \<Rightarrow> json list \<Rightarrow> result list \<Rightarrow> py_error + result list" where
  "parse_contents env [] results = Inr results"
| "parse_contents env (details # contents) results =
     bnd (parse_entry env details) (\<lambda>r.
       parse_contents env contents (case r of None \<Rightarrow> results | Some x \<Rightarrow> results @ [x]))"

text \<open>Lines 174 to 233.\<close>

definition results_of :: "env \<Rightarrow> json \<Rightarrow> py_error + result list option" where
  "results_of env item_renderer =
     (if truthy item_renderer then
        bnd (getitem item_renderer (Key ''contents'')) (\<lambda>contents.
        bnd (py_iter contents) (\<lambda>cs.
        bnd (parse_contents env cs []) (\<lambda>rs. Inr (Some rs))))
      else Inr None)"

text \<open>Lines 155 to 235: everything \<^verbatim>\<open>fetch_and_parse\<close> does with the fetched document.\<close>

definition parse_raw_results :: "env \<Rightarrow> json \<Rightarrow> py_error + result list option \<times> json" where
  "parse_raw_results env raw_results =
     bnd (locate_sections raw_results) (\<lambda>sections.
     bnd (py_iter sections) (\<lambda>ss.
     bnd (scan_sections ss JNull JNull) (\<lambda>rs.
     bnd (next_continuation_of (snd rs)) (\<lambda>next_continuation.
     bnd (results_of env (fst rs)) (\<lambda>results.
       Inr (results, next_continuation))))))"

section \<open>The Search object\<close>

text \<open>The attributes of a \<^verbatim>\<open>Search\<close>; \<open>JNull\<close> and \<open>None\<close> are Python's \<^verbatim>\<open>None\<close>. \<open>calls\<close>
  is not an attribute: it counts the requests made to \<^verbatim>\<open>InnerTube.search\<close>.\<close>

record search =
  query :: string
  param :: "params option"
  s_initial_results :: json
  s_results :: "result list option"
  s_completion_suggestions :: json
  s_current_continuation :: json
  calls :: nat

definition Search :: "string \<Rightarrow> params option \<Rightarrow> search" where
  "Search q p = \<lparr>query = q, param = p, s_initial_results = JNull, s_results = None,
                 s_completion_suggestions = JNull, s_current_continuation = JNull, calls = 0\<rparr>"

text \<open>Truth value of \<^verbatim>\<open>self._results\<close>: \<^verbatim>\<open>None\<close> and the empty list are false.\<close>

fun truthy_results :: "result list option \<Rightarrow> bool" where
  "truthy_results None = False"
| "truthy_results (Some rs) = (rs \<noteq> [])"

text \<open>An operation returns what it returned or raised, and the session it leaves: the
  session keeps what was assigned before an exception.\<close>

definition fetch_query :: "env \<Rightarrow> search \<Rightarrow> json \<Rightarrow> (py_error + json) \<times> search" where
  "fetch_query env s continuation =
     (case innertube_search env (calls s) (query s) (param s) continuation of
        Inl e \<Rightarrow> (Inl e, s\<lparr>calls := Suc (calls s)\<rparr>)
      | Inr query_results \<Rightarrow>
          (Inr query_results,
           if truthy (s_initial_results s) then s\<lparr>calls := Suc (calls s)\<rparr>
           else s\<lparr>calls := Suc (calls s), s_initial_results := query_results\<rparr>))"

definition fetch_and_parse ::
    "env \<Rightarrow> search \<Rightarrow> json \<Rightarrow> (py_error + result list option \<times> json) \<times> search" where
  "fetch_and_parse env s continuation =
     (case fetch_query env s continuation of
        (Inl e, s') \<Rightarrow> (Inl e, s')
      | (Inr raw_results, s') \<Rightarrow> (parse_raw_results env raw_results, s'))"

definition results :: "env \<Rightarrow> search \<Rightarrow> (py_error + result list option) \<times> search" where
  "results env s =
     (if truthy_results (s_results s) then (Inr (s_results s), s)
      else
        (case fetch_and_parse env s JNull of
           (Inl e, s') \<Rightarrow> (Inl e, s')
         | (Inr (videos, continuation), s') \<Rightarrow>
             (Inr videos, s'\<lparr>s_results := videos, s_current_continuation := continuation\<rparr>)))"

text \<open>\<^verbatim>\<open>self._results.extend(videos)\<close>: \<^verbatim>\<open>None\<close> has no \<open>extend\<close>, and \<open>extend\<close> needs an
  iterable.\<close>

definition get_next_results :: "env \<Rightarrow> search \<Rightarrow> (py_error + unit) \<times> search" where
  "get_next_results env s =
     (if truthy (s_current_continuation s) then
        (case fetch_and_parse env s (s_current_continuation s) of
           (Inl e, s') \<Rightarrow> (Inl e, s')
         | (Inr (videos, continuation), s') \<Rightarrow>
             (case s_results s' of
                None \<Rightarrow> (Inl AttributeError, s')
              | Some rs \<Rightarrow>
                  (case videos of
                     None \<Rightarrow> (Inl TypeError, s')
                   | Some vs \<Rightarrow>
                       (Inr (), s'\<lparr>s_results := Some (rs @ vs),
                                   s_current_continuation := continuation\<rparr>))))
      else (Inl IndexError, s))"

definition completion_suggestions :: "env \<Rightarrow> search \<Rightarrow> (py_error + json) \<times> search" where
  "completion_suggestions env s =
     (if truthy (s_completion_suggestions s) then (Inr (s_completion_suggestions s), s)
      else
        (case results env s of
           (Inl e, s') \<Rightarrow> (Inl e, s')
         | (Inr rs, s') \<Rightarrow>
             if truthy_results rs then
               (case getitem (s_initial_results s') (Key ''refinements'') of
                  Inl e \<Rightarrow> (Inl e, s')
                | Inr v \<Rightarrow> (Inr v, s'\<lparr>s_completion_suggestions := v\<rparr>))
             else (Inr (s_completion_suggestions s'), s')))"

section \<open>Notions the properties are stated with\<close>

text \<open>What one action alone supplies for a key, and the value of the last action of a list
  that supplies the key.\<close>

definition supplied :: "json \<Rightarrow> string \<Rightarrow> json option" where
  "supplied action k = (case parse_action action [] of Inl e \<Rightarrow> None | Inr m \<Rightarrow> map_of m k)"

fun last_supplied :: "json list \<Rightarrow> string \<Rightarrow> json option" where
  "last_supplied [] k = None"
| "last_supplied (a # as) k =
     (case last_supplied as k of Some v \<Rightarrow> Some v | None \<Rightarrow> supplied a k)"

definition actions_of :: "json \<Rightarrow> json list" where
  "actions_of md = (case bnd (py_get md ''actions'' (JList [])) py_iter of
       Inl e \<Rightarrow> [] | Inr as \<Rightarrow> as)"

text \<open>A step of the parse either raises whatever the dict holds, or adds the same bindings
  to any dict.\<close>

definition uniform :: "(metadata \<Rightarrow> py_error + metadata) \<Rightarrow> bool" where
  "uniform f = ((\<exists>e. \<forall>m. f m = Inl e) \<or>
                (\<exists>c. \<forall>m. \<exists>m'. f m = Inr m' \<and> map_of m' = map_of m ++ c))"

text \<open>What a fetch that returned \<open>raw\<close> leaves of the session: one more request, and
  \<open>raw\<close> stored as the first document unless a document that counts as true is stored.\<close>

definition fetched :: "search \<Rightarrow> json \<Rightarrow> search" where
  "fetched s raw = s\<lparr>calls := Suc (calls s),
     s_initial_results := (if truthy (s_initial_results s) then s_initial_results s else raw)\<rparr>"

text \<open>The values found under key \<open>k\<close> in the sections that carry it, in order.\<close>

definition renderers :: "string \<Rightarrow> json list \<Rightarrow> json list" where
  "renderers k ss =
     concat (map (\<lambda>s. case getitem s (Key k) of Inl e \<Rightarrow> [] | Inr v \<Rightarrow> [v]) ss)"

text \<open>The entries the first seven tests of the chain skip: an entry with advertisements,
  a shelf, a radio, a playlist, a card list, a "did you mean" or a background promo.\<close>

definition has_ads :: "(string \<times> json) list \<Rightarrow> bool" where
  "has_ads kvs = (case map_of kvs ''searchPyvRenderer'' of
       Some (JObj pyv) \<Rightarrow> (case map_of pyv ''ads'' of None \<Rightarrow> False | Some ads \<Rightarrow> truthy ads)
     | _ \<Rightarrow> False)"

text \<open>What stands under \<open>searchPyvRenderer\<close>, when the key is there, is a dict.\<close>

definition pyv_is_dict :: "(string \<times> json) list \<Rightarrow> bool" where
  "pyv_is_dict kvs = (case map_of kvs ''searchPyvRenderer'' of
       None \<Rightarrow> True | Some (JObj pyv) \<Rightarrow> True | _ \<Rightarrow> False)"

fun discard_variant :: "json \<Rightarrow> bool" where
  "discard_variant (JObj kvs) =
     (pyv_is_dict kvs \<and>
      (has_ads kvs \<or> has_key ''shelfRenderer'' kvs \<or> has_key ''radioRenderer'' kvs \<or>
       has_key ''playlistRenderer'' kvs \<or> has_key ''horizontalCardListRenderer'' kvs \<or>
       has_key ''didYouMeanRenderer'' kvs \<or> has_key ''backgroundPromoRenderer'' kvs))"
| "discard_variant _ = False"

text \<open>An entry of no known variant: a dict with none of the nine keys the chain tests.\<close>

fun unrecognized :: "json \<Rightarrow> bool" where
  "unrecognized (JObj kvs) =
     list_all (\<lambda>k. \<not> has_key k kvs)
       [''searchPyvRenderer'', ''shelfRenderer'', ''radioRenderer'', ''playlistRenderer'',
        ''horizontalCardListRenderer'', ''didYouMeanRenderer'', ''backgroundPromoRenderer'',
        ''videoRenderer'', ''channelRenderer'']"
| "unrecognized _ = False"

text \<open>What one entry contributes to the results of its page.\<close>

definition entry_result :: "env \<Rightarrow> json \<Rightarrow> result option" where
  "entry_result env details = (case parse_entry env details of Inl e \<Rightarrow> None | Inr r \<Rightarrow> r)"

text \<open>\<open>n\<close> successive calls of \<^verbatim>\<open>get_next_results\<close>, ended by the first exception.\<close>

fun get_next_results_n :: "env \<Rightarrow> nat \<Rightarrow> search \<Rightarrow> (py_error + unit) \<times> search" where
  "get_next_results_n env 0 s = (Inr (), s)"
| "get_next_results_n env (Suc n) s =
     (case get_next_results env s of
        (Inl e, s') \<Rightarrow> (Inl e, s')
      | (Inr u, s') \<Rightarrow> get_next_results_n env n s')"

text \<open>The session after \<open>n\<close> calls of \<^verbatim>\<open>get_next_results\<close>, whether they raised or not.\<close>

fun after_calls :: "env \<Rightarrow> nat \<Rightarrow> search \<Rightarrow> search" where
  "after_calls env 0 s = s"
| "after_calls env (Suc n) s = after_calls env n (snd (get_next_results env s))"

text \<open>The entries of the item section of a document, in the order the document lists
  them: the entries under \<open>contents\<close> of the last section that carries an item section.
  No entry when the document has none.\<close>

definition entries_of :: "json \<Rightarrow> json list" where
  "entries_of raw =
     (case locate_sections raw of
        Inl e \<Rightarrow> []
      | Inr sections \<Rightarrow>
          (case py_iter sections of
             Inl e \<Rightarrow> []
           | Inr ss \<Rightarrow>
               (case getitem (last (JNull # renderers ''itemSectionRenderer'' ss))
                       (Key ''contents'') of
                  Inl e \<Rightarrow> []
                | Inr contents \<Rightarrow> (case py_iter contents of Inl e \<Rightarrow> [] | Inr cs \<Rightarrow> cs))))"

text \<open>The token of the continuation item of a document (of the last section that carries
  one), \<^verbatim>\<open>None\<close> when there is none.\<close>

definition token_of :: "json \<Rightarrow> json" where
  "token_of raw =
     (case locate_sections raw of
        Inl e \<Rightarrow> JNull
      | Inr sections \<Rightarrow>
          (case py_iter sections of
             Inl e \<Rightarrow> JNull
           | Inr ss \<Rightarrow>
               (case getpath (last (JNull # renderers ''continuationItemRenderer'' ss))
                       [Key ''continuationEndpoint'', Key ''continuationCommand'',
                        Key ''token''] of
                  Inl e \<Rightarrow> JNull
                | Inr token \<Rightarrow> token)))"

text \<open>What the entries of a document contribute, entry by entry.\<close>

definition extracted :: "env \<Rightarrow> json \<Rightarrow> result list" where
  "extracted env raw = List.map_filter (entry_result env) (entries_of raw)"

text \<open>The documents \<open>n\<close> successive requests receive, the first sent as request number
  \<open>k\<close> with continuation \<open>c\<close>, each later one with the token of the document before it.\<close>

fun documents :: "env \<Rightarrow> string \<Rightarrow> params option \<Rightarrow> nat \<Rightarrow> json \<Rightarrow> nat \<Rightarrow> json list" where
  "documents env q p k c 0 = []"
| "documents env q p k c (Suc n) =
     (case innertube_search env k q p c of
        Inl e \<Rightarrow> []
      | Inr raw \<Rightarrow> raw # documents env q p (Suc k) (token_of raw) n)"

text \<open>An entry on which the first seven tests of the chain fail and that carries a
  \<open>videoRenderer\<close>; and a renderer in which the fields \<^verbatim>\<open>_parse_video\<close> reads before the
  view count are all there.\<close>

definition reaches_video :: "(string \<times> json) list \<Rightarrow> bool" where
  "reaches_video kvs =
     (pyv_is_dict kvs \<and> \<not> has_ads kvs \<and>
      list_all (\<lambda>k. \<not> has_key k kvs)
        [''shelfRenderer'', ''radioRenderer'', ''playlistRenderer'',
         ''horizontalCardListRenderer'', ''didYouMeanRenderer'', ''backgroundPromoRenderer''] \<and>
      has_key ''videoRenderer'' kvs)"

definition fields_before_views :: "json \<Rightarrow> bool" where
  "fields_before_views renderer =
     (case bnd (getitem renderer (Key ''videoId'')) (\<lambda>vid.
           bnd (getpath renderer [Key ''title'', Key ''runs'', Index0, Key ''text'']) (\<lambda>title.
           bnd (getpath renderer [Key ''ownerText'', Key ''runs'', Index0, Key ''text''])
             (\<lambda>channel_name.
           getpath renderer [Key ''ownerText'', Key ''runs'', Index0, Key ''navigationEndpoint'',
             Key ''commandMetadata'', Key ''webCommandMetadata'', Key ''url'']))) of
        Inl e \<Rightarrow> False
      | Inr u \<Rightarrow> True)"

text \<open>The sessions a caller can reach from a new \<^verbatim>\<open>Search\<close> through \<open>results\<close>,
  \<open>get_next_results\<close> and \<open>completion_suggestions\<close>.\<close>

inductive reachable :: "env \<Rightarrow> search \<Rightarrow> bool" for env :: env where
  new: "reachable env (Search q p)"
| by_results: "reachable env s \<Longrightarrow> reachable env (snd (results env s))"
| by_next: "reachable env s \<Longrightarrow> reachable env (snd (get_next_results env s))"
| by_suggestions: "reachable env s \<Longrightarrow> reachable env (snd (completion_suggestions env s))"

text \<open>A session whose stored continuation counts as true also stores a first document
  that counts as true.\<close>

definition linked :: "search \<Rightarrow> bool" where
  "linked s = (truthy (s_initial_results s) \<or> \<not> truthy (s_current_continuation s))"

text \<open>The suggestions of a session are settled on \<open>v\<close>: \<open>v\<close> is cached, and it either
  counts as true or is what the stored first document holds while the results count as
  true.\<close>

definition settled :: "json \<Rightarrow> search \<Rightarrow> bool" where
  "settled v s = (s_completion_suggestions s = v \<and>
     (truthy v \<or> (truthy_results (s_results s) \<and>
                   getitem (s_initial_results s) (Key ''refinements'') = Inr v)))"

section \<open>Example documents\<close>

text \<open>An initial page and a continuation page, around given sections.\<close>

definition initial_page :: "json list \<Rightarrow> json list \<Rightarrow> json" where
  "initial_page sections refinements =
     JObj [(''contents'', JObj [(''twoColumnSearchResultsRenderer'',
              JObj [(''primaryContents'', JObj [(''sectionListRenderer'',
                JObj [(''contents'', JList sections)])])])]),
           (''refinements'', JList refinements)]"

definition continuation_page :: "json list \<Rightarrow> json" where
  "continuation_page sections =
     JObj [(''onResponseReceivedCommands'',
             JList [JObj [(''appendContinuationItemsAction'',
               JObj [(''continuationItems'', JList sections)])]])]"

definition item_section :: "json list \<Rightarrow> json" where
  "item_section entries = JObj [(''itemSectionRenderer'', JObj [(''contents'', JList entries)])]"

definition continuation_item :: "string \<Rightarrow> json" where
  "continuation_item token =
     JObj [(''continuationItemRenderer'', JObj [(''continuationEndpoint'',
       JObj [(''continuationCommand'', JObj [(''token'', JStr token)])])])]"

definition channel_entry :: "string \<Rightarrow> json" where
  "channel_entry cid = JObj [(''channelRenderer'', JObj [(''channelId'', JStr cid)])]"

definition shelf_entry :: json where
  "shelf_entry = JObj [(''shelfRenderer'', JObj [])]"

definition unknown_entry :: json where
  "unknown_entry = JObj [(''movieRenderer'', JObj [])]"

definition video_entry :: "string \<Rightarrow> string \<Rightarrow> json" where
  "video_entry vid views =
     JObj [(''videoRenderer'', JObj [
       (''videoId'', JStr vid),
       (''title'', JObj [(''runs'', JList [JObj [(''text'', JStr ''a title'')]])]),
       (''ownerText'', JObj [(''runs'', JList [JObj [
          (''text'', JStr ''an owner''),
          (''navigationEndpoint'', JObj [(''commandMetadata'',
             JObj [(''webCommandMetadata'', JObj [(''url'', JStr ''/c/owner'')])])])]])]),
       (''viewCountText'', JObj [(''simpleText'', JStr views)])])]"

text \<open>Collaborators that answer request number \<open>n\<close> with the \<open>n\<close>-th document, and the last document
  from then on; the constructors accept every URL.\<close>

fun nth_page :: "json list \<Rightarrow> nat \<Rightarrow> py_error + json" where
  "nth_page [] n = Inl (Other ''no response'')"
| "nth_page [d] n = Inr d"
| "nth_page (d # e # ds) 0 = Inr d"
| "nth_page (d # e # ds) (Suc n) = nth_page (e # ds) n"

definition serving :: "json list \<Rightarrow> env" where
  "serving docs = \<lparr>innertube_search = (\<lambda>n q p c. nth_page docs n),
                    YouTube_init = (\<lambda>url. None),
                    Channel_init = (\<lambda>url. None),
                    format_value = (\<lambda>v. [])\<rparr>"

definition ad_entry :: json where
  "ad_entry = JObj [(''searchPyvRenderer'', JObj [(''ads'', JList [JObj []])])]"

definition query0 :: search where
  "query0 = Search ''q'' None"

definition three_pages :: env where
  "three_pages = serving
     [initial_page [item_section [channel_entry ''UC1''], continuation_item ''t1''] [JStr ''x''],
      continuation_page [item_section [shelf_entry, channel_entry ''UC2''],
                         continuation_item ''t2''],
      continuation_page [item_section [channel_entry ''UC3'']]]"

definition empty_then_channel :: env where
  "empty_then_channel = serving
     [initial_page [item_section []] [],
      initial_page [item_section [channel_entry ''UC1'']] []]"

definition shelf_first :: env where
  "shelf_first = serving
     [initial_page [item_section [shelf_entry], continuation_item ''t''] [JStr ''x''],
      continuation_page [item_section [channel_entry ''UC1'']]]"

definition malformed :: json where
  "malformed = JObj [(''error'', JNull)]"

definition then_malformed :: env where
  "then_malformed = serving
     [initial_page [item_section [channel_entry ''UC1''], continuation_item ''t1''] [],
      malformed]"

definition with_views :: "string \<Rightarrow> env" where
  "with_views views = serving
     [initial_page [item_section [channel_entry ''UC1'', video_entry ''abcdefghijk'' views,
                                  channel_entry ''UC2'']] []]"

definition discards_only :: env where
  "discards_only = serving
     [initial_page [item_section [shelf_entry, ad_entry], continuation_item ''t''] []]"

definition no_item_section :: env where
  "no_item_section = serving [initial_page [continuation_item ''t''] []]"

definition no_continuation :: env where
  "no_continuation = serving [initial_page [item_section []] []]"

definition video_renderer :: "string \<Rightarrow> string \<Rightarrow> (string \<times> json) list" where
  "video_renderer vid views =
     [(''videoId'', JStr vid),
      (''title'', JObj [(''runs'', JList [JObj [(''text'', JStr ''a title'')]])]),
      (''ownerText'', JObj [(''runs'', JList [JObj [
          (''text'', JStr ''an owner''),
          (''navigationEndpoint'', JObj [(''commandMetadata'',
             JObj [(''webCommandMetadata'', JObj [(''url'', JStr ''/c/owner'')])])])]])]),
      (''viewCountText'', JObj [(''simpleText'', JStr views)])]"

definition ordered_pages :: env where
  "ordered_pages = serving
     [initial_page [item_section [channel_entry ''UCA'', shelf_entry, channel_entry ''UCB''],
                    continuation_item ''t1''] [],
      continuation_page [item_section [channel_entry ''UCC'', unknown_entry,
                                       channel_entry ''UCD''],
                         continuation_item ''t2''],
      continuation_page [item_section [channel_entry ''UCE'', channel_entry ''UCF'']]]"

definition empty_token :: env where
  "empty_token = serving
     [initial_page [item_section [channel_entry ''UC1''], continuation_item ''''] []]"

definition bad_second_page :: env where
  "bad_second_page = serving
     [initial_page [item_section [channel_entry ''UC1''], continuation_item ''t1''] [],
      continuation_page [item_section [channel_entry ''UC2'',
                                       video_entry ''abcdefghijk'' ''abc views'',
                                       channel_entry ''UC3'']]]"

definition empty_then_malformed :: env where
  "empty_then_malformed = serving [JObj [], malformed]"

section \<open>Properties\<close>

subsection \<open>Sequencing and dicts\<close>

lemma bnd_Inl [simp]: "bnd (Inl e) f = Inl e"
  by (simp add: bnd_def)

lemma bnd_Inr [simp]: "bnd (Inr x) f = f x"
  by (simp add: bnd_def)

lemma bnd_eq_Inr: "bnd m f = Inr y \<longleftrightarrow> (\<exists>x. m = Inr x \<and> f x = Inr y)"
  by (cases m) auto

lemma map_of_replace:
  "map_of (map (\<lambda>kv. if fst kv = k then (k, v) else kv) m) x =
     (if x = k then (if k \<in> set (map fst m) then Some v else None) else map_of m x)"
  by (induction m) force+

lemma map_of_setitem: "map_of (setitem m k v) = (map_of m)(k \<mapsto> v)"
proof (cases "k \<in> set (map fst m)")
  case True
  then show ?thesis by (simp add: setitem_def fun_eq_iff map_of_replace)
next
  case False
  then have "map_of m k = None" by (simp add: map_of_eq_None_iff)
  with False show ?thesis
    by (auto simp: setitem_def fun_eq_iff map_add_def split: option.splits)
qed

subsection \<open>View counts\<close>

lemma py_in_obj: "py_in k (JObj kvs) = Inr (map_of kvs k \<noteq> None)"
  by (simp add: map_of_eq_None_iff)

lemma not_space_No: "\<not> is_space CHR ''N''" "\<not> is_space CHR ''o''"
  by (simp_all add: is_space_def)

lemma first_word_No:
  "rest = [] \<or> is_space (hd rest) \<Longrightarrow> first_word (split_words (''No'' @ rest)) = Inr ''No''"
  by (cases rest) (auto simp: split_words_def not_space_No)

lemma count_of_text_No:
  "rest = [] \<or> is_space (hd rest) \<Longrightarrow>
   count_of_text (JStr (CHR ''N'' # CHR ''o'' # rest)) = Inr 0"
  using first_word_No[of rest] by (simp add: count_of_text_def remove_commas_def)

lemma count_of_text_example: "count_of_text (JStr ''1,234,567 views'') = Inr 1234567"
  by (simp add: count_of_text_def split_words_def remove_commas_def is_space_def py_int_def
      strip_def read_number_def is_digit_def digit_value_def)

lemma metadata_view_count:
  "video_details_metadata env details = Inr md \<Longrightarrow>
   \<exists>renderer. getitem details (Key ''videoRenderer'') = Inr renderer \<and>
              view_count_of renderer = Inr (md_view_count md)"
  by (auto simp: video_details_metadata_def bnd_eq_Inr)

text \<open>
  C5. The view count of a renderer: the simple text \<open>1,234,567 views\<close> gives 1234567; a
  simple text that starts with the word \<open>No\<close> (\<open>No\<close> alone, or \<open>No\<close> and whitespace
  after it, as in \<open>No views\<close>) gives 0; a renderer with no \<open>viewCountText\<close> gives 0; and
  when \<open>viewCountText\<close> has \<open>runs\<close>, the count is read from the text of the first run.
  The count the metadata of a video holds is the view count of its renderer.
\<close>

theorem view_count_extraction:
  "(map_of renderer ''viewCountText'' = Some (JObj vct) \<and> map_of vct ''runs'' = None \<and>
      map_of vct ''simpleText'' = Some (JStr ''1,234,567 views'')
      \<longrightarrow> view_count_of (JObj renderer) = Inr 1234567) \<and>
   (map_of renderer ''viewCountText'' = Some (JObj vct) \<and> map_of vct ''runs'' = None \<and>
      map_of vct ''simpleText'' = Some (JStr (''No'' @ rest)) \<and> (rest = [] \<or> is_space (hd rest))
      \<longrightarrow> view_count_of (JObj renderer) = Inr 0) \<and>
   (map_of renderer ''viewCountText'' = None \<longrightarrow> view_count_of (JObj renderer) = Inr 0) \<and>
   (map_of renderer ''viewCountText'' = Some (JObj vct) \<and>
      map_of vct ''runs'' = Some (JList (JObj run # runs)) \<and> map_of run ''text'' = Some t
      \<longrightarrow> view_count_of (JObj renderer) = count_of_text t) \<and>
   (video_details_metadata env details = Inr md
      \<longrightarrow> (\<exists>r. getitem details (Key ''videoRenderer'') = Inr r \<and>
                view_count_of r = Inr (md_view_count md)))"
  using metadata_view_count[of env details md]
  by (auto simp: view_count_of_def py_in_obj count_of_text_No count_of_text_example
      simp del: py_in.simps)

theorem view_count_extraction_witness:
  "view_count_of (JObj [(''viewCountText'', JObj [(''simpleText'', JStr ''1,234,567 views'')])])
     = Inr 1234567 \<and>
   view_count_of (JObj [(''viewCountText'', JObj [(''simpleText'', JStr ''No views'')])]) = Inr 0 \<and>
   view_count_of (JObj [(''videoId'', JStr ''abcdefghijk'')]) = Inr 0 \<and>
   view_count_of (JObj [(''viewCountText'', JObj [(''runs'',
       JList [JObj [(''text'', JStr ''12 watching'')], JObj [(''text'', JStr ''now'')]])])])
     = count_of_text (JStr ''12 watching'') \<and>
   count_of_text (JStr ''12 watching'') = Inr 12 \<and>
   md_view_count (projr (video_details_metadata (serving []) (video_entry ''abcdefghijk'' ''7 views''))) = 7"
proof -
  let ?r1 = "[(''viewCountText'', JObj [(''simpleText'', JStr ''1,234,567 views'')])]"
  let ?r2 = "[(''viewCountText'', JObj [(''simpleText'', JStr ''No views'')])]"
  let ?r3 = "[(''videoId'', JStr ''abcdefghijk'')]"
  let ?r4 = "[(''viewCountText'', JObj [(''runs'',
       JList [JObj [(''text'', JStr ''12 watching'')], JObj [(''text'', JStr ''now'')]])])]"
  have sp: "is_space CHR '' ''" by (simp add: is_space_def)
  have md: "video_details_metadata (serving []) (video_entry ''abcdefghijk'' ''7 views'')
      = Inr \<lparr>md_id = JStr ''abcdefghijk'',
              md_url = ''https://www.youtube.com/watch?v=abcdefghijk'',
              md_title = JStr ''a title'', md_channel_name = JStr ''an owner'',
              md_channel_url = JStr ''/c/owner'', md_view_count = 7, md_length = JNull\<rparr>"
    by (simp add: video_details_metadata_def video_entry_def view_count_of_def length_of_def
        count_of_text_def split_words_def remove_commas_def is_space_def py_int_def strip_def
        read_number_def is_digit_def digit_value_def fstring_def)
  have c12: "count_of_text (JStr ''12 watching'') = Inr 12"
    by (simp add: count_of_text_def split_words_def remove_commas_def is_space_def py_int_def
        strip_def read_number_def is_digit_def digit_value_def)
  from view_count_extraction[where renderer="?r1"
      and vct="[(''simpleText'', JStr ''1,234,567 views'')]"]
  have 1: "view_count_of (JObj ?r1) = Inr 1234567" by simp
  from view_count_extraction[where renderer="?r2" and vct="[(''simpleText'', JStr ''No views'')]"
      and rest="'' views''"] sp
  have 2: "view_count_of (JObj ?r2) = Inr 0" by simp
  from view_count_extraction[where renderer="?r3"]
  have 3: "view_count_of (JObj ?r3) = Inr 0" by simp
  from view_count_extraction[where renderer="?r4" and vct="[(''runs'',
       JList [JObj [(''text'', JStr ''12 watching'')], JObj [(''text'', JStr ''now'')]])]"
      and run="[(''text'', JStr ''12 watching'')]" and runs="[JObj [(''text'', JStr ''now'')]]"
      and t="JStr ''12 watching''"]
  have 4: "view_count_of (JObj ?r4) = count_of_text (JStr ''12 watching'')" by simp
  from view_count_extraction[where env="serving []"
      and details="video_entry ''abcdefghijk'' ''7 views''", THEN conjunct2, THEN conjunct2,
      THEN conjunct2, THEN conjunct2] md
  have 5: "md_view_count (projr (video_details_metadata (serving [])
             (video_entry ''abcdefghijk'' ''7 views''))) = 7"
    by simp
  from 1 2 3 4 5 c12 show ?thesis by simp
qed

subsection \<open>YouTubeMetadata\<close>

lemma uniform_Inr: "uniform Inr"
  unfolding uniform_def by (rule disjI2, rule exI[of _ Map.empty]) simp

lemma uniform_Inl: "uniform (\<lambda>m. Inl e)"
  unfolding uniform_def by auto

lemma uniform_setitem: "uniform (\<lambda>m. Inr (setitem m k v))"
  unfolding uniform_def
  by (rule disjI2, rule exI[of _ "[k \<mapsto> v]"]) (simp add: map_of_setitem)

lemma uniform_bnd_const: "(\<And>x. uniform (\<lambda>m. f x m)) \<Longrightarrow> uniform (\<lambda>m. bnd r (\<lambda>x. f x m))"
  by (cases r) (simp_all add: uniform_Inl)

lemma uniform_comp:
  assumes "uniform f" "uniform g"
  shows "uniform (\<lambda>m. bnd (f m) g)"
proof -
  from assms(1) consider e where "\<forall>m. f m = Inl e"
    | c where "\<forall>m. \<exists>m'. f m = Inr m' \<and> map_of m' = map_of m ++ c"
    unfolding uniform_def by blast
  then show ?thesis
  proof cases
    case 1
    then show ?thesis unfolding uniform_def by auto
  next
    case f: 2
    from assms(2) consider e where "\<forall>m. g m = Inl e"
      | d where "\<forall>m. \<exists>m'. g m = Inr m' \<and> map_of m' = map_of m ++ d"
      unfolding uniform_def by blast
    then show ?thesis
    proof cases
      case 1
      have "\<forall>m. bnd (f m) g = Inl e"
      proof
        fix m
        from f obtain m' where "f m = Inr m'" by blast
        with 1 show "bnd (f m) g = Inl e" by simp
      qed
      then show ?thesis unfolding uniform_def by blast
    next
      case g: 2
      have "\<forall>m. \<exists>m''. bnd (f m) g = Inr m'' \<and> map_of m'' = map_of m ++ (c ++ d)"
      proof
        fix m
        from f obtain m' where m': "f m = Inr m'" "map_of m' = map_of m ++ c" by blast
        from g obtain m'' where m'': "g m' = Inr m''" "map_of m'' = map_of m' ++ d" by blast
        from m' m'' show "\<exists>m''. bnd (f m) g = Inr m'' \<and> map_of m'' = map_of m ++ (c ++ d)"
          by simp
      qed
      then show ?thesis unfolding uniform_def by blast
    qed
  qed
qed

lemma uniform_when_in: "uniform f \<Longrightarrow> uniform (\<lambda>m. when_in k action m f)"
proof (cases "py_in k action")
  case (Inl e)
  then show ?thesis by (simp add: when_in_def uniform_Inl)
next
  case (Inr b)
  assume "uniform f"
  with Inr show ?thesis by (cases b) (simp_all add: when_in_def uniform_Inr)
qed

lemma uniform_updates:
  "uniform (update_viewership action)" "uniform (update_title action)"
  "uniform (update_date action)" "uniform (update_description action)"
  unfolding update_viewership_def update_title_def update_date_def update_description_def
  by (intro uniform_bnd_const uniform_setitem)+

lemma uniform_parse_action: "uniform (parse_action action)"
proof -
  have "parse_action action = (\<lambda>m0.
     bnd (when_in ''updateViewershipAction'' action m0 (update_viewership action))
       (\<lambda>m1. bnd (when_in ''updateTitleAction'' action m1 (update_title action))
       (\<lambda>m2. bnd (when_in ''updateDateAction'' action m2 (update_date action))
       (\<lambda>m3. when_in ''updateDescriptionAction'' action m3 (update_description action)))))"
    by (simp add: fun_eq_iff parse_action_def)
  then show ?thesis
    by (simp only:) (intro uniform_comp uniform_when_in uniform_updates)
qed

lemma parse_action_supplied:
  assumes "parse_action action m = Inr m'"
  shows "map_of m' k = (case supplied action k of Some v \<Rightarrow> Some v | None \<Rightarrow> map_of m k)"
proof -
  from uniform_parse_action[of action] assms obtain c
    where c: "\<forall>m. \<exists>m'. parse_action action m = Inr m' \<and> map_of m' = map_of m ++ c"
    unfolding uniform_def by force
  from c obtain m0 where m0: "parse_action action [] = Inr m0" "map_of m0 = map_of [] ++ c"
    by blast
  from c obtain m2 where "parse_action action m = Inr m2" "map_of m2 = map_of m ++ c"
    by blast
  with assms have "map_of m' = map_of m ++ c" by simp
  with m0 show ?thesis
    by (auto simp: supplied_def map_add_def split: option.splits)
qed

lemma parse_actions_last_supplied:
  "parse_actions as m = Inr m' \<Longrightarrow>
   map_of m' k = (case last_supplied as k of Some v \<Rightarrow> Some v | None \<Rightarrow> map_of m k)"
proof (induction as arbitrary: m)
  case Nil
  then show ?case by simp
next
  case (Cons a as)
  from Cons.prems obtain m1 where m1: "parse_action a m = Inr m1" "parse_actions as m1 = Inr m'"
    by (auto simp: bnd_eq_Inr)
  from Cons.IH[OF m1(2)] parse_action_supplied[OF m1(1), of k] show ?case
    by (auto split: option.splits)
qed

text \<open>
  C10, as amended. A dict with no \<open>actions\<close> key is accepted by the constructor and
  yields the empty mapping. Whenever the constructor returns, \<open>get\<close> gives for every key
  the value of the last action that supplied it, and the default when no action did, and
  indexing gives the same value and raises KeyError when no action supplied the key.
\<close>

theorem metadata_get_last_action:
  "(map_of kvs ''actions'' = None \<longrightarrow>
      YouTubeMetadata (JObj kvs) = Inr \<lparr>raw_metadata = JObj kvs, metadata = []\<rparr>) \<and>
   (YouTubeMetadata md = Inr y \<longrightarrow>
      md_get y k d = (case last_supplied (actions_of md) k of None \<Rightarrow> d | Some v \<Rightarrow> v) \<and>
      md_getitem y k =
        (case last_supplied (actions_of md) k of None \<Rightarrow> Inl KeyError | Some v \<Rightarrow> Inr v))"
proof (intro conjI impI)
  assume "map_of kvs ''actions'' = None"
  then show "YouTubeMetadata (JObj kvs) = Inr \<lparr>raw_metadata = JObj kvs, metadata = []\<rparr>"
    by (simp add: YouTubeMetadata_def parse_metadata_def)
next
  assume y: "YouTubeMetadata md = Inr y"
  then obtain as where as: "bnd (py_get md ''actions'' (JList [])) py_iter = Inr as"
    and m: "parse_actions as [] = Inr (metadata y)"
    by (auto simp: YouTubeMetadata_def parse_metadata_def bnd_eq_Inr)
  from as have "actions_of md = as" by (simp add: actions_of_def)
  with parse_actions_last_supplied[OF m, of k]
  have *: "map_of (metadata y) k = last_supplied (actions_of md) k"
    by (simp split: option.splits)
  show "md_get y k d = (case last_supplied (actions_of md) k of None \<Rightarrow> d | Some v \<Rightarrow> v)"
    by (simp add: md_get_def *)
  show "md_getitem y k =
        (case last_supplied (actions_of md) k of None \<Rightarrow> Inl KeyError | Some v \<Rightarrow> Inr v)"
    by (simp add: md_getitem_def *)
qed

theorem metadata_get_last_action_witness:
  "YouTubeMetadata (JObj [(''other'', JNull)])
     = Inr \<lparr>raw_metadata = JObj [(''other'', JNull)], metadata = []\<rparr> \<and>
   (let md = JObj [(''actions'', JList [
        JObj [(''updateDateAction'', JObj [(''dateText'', JObj [(''simpleText'', JStr ''a'')])])],
        JObj [(''updateDateAction'', JObj [(''dateText'', JObj [(''simpleText'', JStr ''b'')])])]])];
        y = \<lparr>raw_metadata = md, metadata = [(''relativeDate'', JStr ''b'')]\<rparr>
    in YouTubeMetadata md = Inr y \<and>
       md_get y ''relativeDate'' JNull = JStr ''b'' \<and>
       md_get y ''title'' (JStr ''none'') = JStr ''none'' \<and>
       md_getitem y ''title'' = Inl KeyError)"
proof -
  let ?md = "JObj [(''actions'', JList [
        JObj [(''updateDateAction'', JObj [(''dateText'', JObj [(''simpleText'', JStr ''a'')])])],
        JObj [(''updateDateAction'', JObj [(''dateText'', JObj [(''simpleText'', JStr ''b'')])])]])]"
  let ?y = "\<lparr>raw_metadata = ?md, metadata = [(''relativeDate'', JStr ''b'')]\<rparr>"
  have y: "YouTubeMetadata ?md = Inr ?y"
    by (simp add: YouTubeMetadata_def parse_metadata_def parse_action_def when_in_def
        update_date_def setitem_def)
  have sup: "last_supplied (actions_of ?md) ''relativeDate'' = Some (JStr ''b'')"
       "last_supplied (actions_of ?md) ''title'' = None"
    by (simp_all add: actions_of_def supplied_def parse_action_def when_in_def update_date_def
        setitem_def)
  from metadata_get_last_action[where kvs="[(''other'', JNull)]"]
  have 1: "YouTubeMetadata (JObj [(''other'', JNull)])
     = Inr \<lparr>raw_metadata = JObj [(''other'', JNull)], metadata = []\<rparr>"
    by simp
  from metadata_get_last_action[where md="?md" and y="?y" and k="''relativeDate''" and d=JNull]
    y sup
  have 2: "md_get ?y ''relativeDate'' JNull = JStr ''b''" by simp
  from metadata_get_last_action[where md="?md" and y="?y" and k="''title''"
      and d="JStr ''none''"] y sup
  have 3: "md_get ?y ''title'' (JStr ''none'') = JStr ''none''"
    "md_getitem ?y ''title'' = Inl KeyError" by simp_all
  from 1 2 3 y show ?thesis by (simp add: Let_def)
qed

text \<open>
  C10 as stated fails: the constructor raises KeyError on a dict whose action list holds
  an \<open>updateTitleAction\<close> without a \<open>title\<close>.
\<close>

theorem metadata_constructor_raises:
  "YouTubeMetadata (JObj [(''actions'', JList [JObj [(''updateTitleAction'', JObj [])]])])
     = Inl KeyError"
  by (simp add: YouTubeMetadata_def parse_metadata_def parse_action_def when_in_def
      update_title_def)

text \<open>
  The constructor also raises IndexError (an \<open>updateTitleAction\<close> whose \<open>runs\<close> are
  empty) and TypeError (an action that is a number).
\<close>

lemma metadata_constructor_other_errors:
  "YouTubeMetadata (JObj [(''actions'', JList [JObj [(''updateTitleAction'',
      JObj [(''title'', JObj [(''runs'', JList [])])])]])]) = Inl IndexError \<and>
   YouTubeMetadata (JObj [(''actions'', JList [JInt 5])]) = Inl TypeError"
  by code_simp

subsection \<open>Fetching\<close>

lemma getitem_Key_truthy: "getitem v (Key k) = Inr w \<Longrightarrow> truthy v"
  by (cases v) (auto split: option.splits)

lemma getpath_Key_truthy: "getpath v (Key k # ks) = Inr w \<Longrightarrow> truthy v"
  by (auto simp: bnd_eq_Inr dest: getitem_Key_truthy)

lemma locate_sections_truthy: "locate_sections raw = Inr sections \<Longrightarrow> truthy raw"
  unfolding locate_sections_def
  by (auto simp del: getpath.simps split: sum.splits if_splits dest: getpath_Key_truthy)

lemma parse_raw_results_truthy: "parse_raw_results env raw = Inr x \<Longrightarrow> truthy raw"
  by (auto simp: parse_raw_results_def bnd_eq_Inr dest: locate_sections_truthy)

lemma parse_raw_results_malformed:
  "locate_sections raw = Inl e \<Longrightarrow> parse_raw_results env raw = Inl e"
  by (simp add: parse_raw_results_def)

lemma fetch_query_Inr:
  "innertube_search env (calls s) (query s) (param s) c = Inr raw \<Longrightarrow>
   fetch_query env s c = (Inr raw, fetched s raw)"
  by (simp add: fetch_query_def fetched_def)

lemma fetch_query_Inl:
  "innertube_search env (calls s) (query s) (param s) c = Inl e \<Longrightarrow>
   fetch_query env s c = (Inl e, s\<lparr>calls := Suc (calls s)\<rparr>)"
  by (simp add: fetch_query_def)

lemma fetch_and_parse_Inr:
  "innertube_search env (calls s) (query s) (param s) c = Inr raw \<Longrightarrow>
   fetch_and_parse env s c = (parse_raw_results env raw, fetched s raw)"
  by (simp add: fetch_and_parse_def fetch_query_Inr)

lemma fetch_and_parse_Inl:
  "innertube_search env (calls s) (query s) (param s) c = Inl e \<Longrightarrow>
   fetch_and_parse env s c = (Inl e, s\<lparr>calls := Suc (calls s)\<rparr>)"
  by (simp add: fetch_and_parse_def fetch_query_Inl)

lemma fetched_simps [simp]:
  "query (fetched s raw) = query s" "param (fetched s raw) = param s"
  "s_results (fetched s raw) = s_results s"
  "s_completion_suggestions (fetched s raw) = s_completion_suggestions s"
  "s_current_continuation (fetched s raw) = s_current_continuation s"
  "calls (fetched s raw) = Suc (calls s)"
  "s_initial_results (fetched s raw) =
     (if truthy (s_initial_results s) then s_initial_results s else raw)"
  by (simp_all add: fetched_def)

text \<open>A fetch either raised in the collaborator or returned a document.\<close>

lemma fetch_and_parse_cases:
  obtains (raised) e where "innertube_search env (calls s) (query s) (param s) c = Inl e"
      "fetch_and_parse env s c = (Inl e, s\<lparr>calls := Suc (calls s)\<rparr>)"
  | (returned) raw where "innertube_search env (calls s) (query s) (param s) c = Inr raw"
      "fetch_and_parse env s c = (parse_raw_results env raw, fetched s raw)"
  by (cases "innertube_search env (calls s) (query s) (param s) c")
     (auto simp: fetch_and_parse_Inl fetch_and_parse_Inr)

lemma results_cached:
  "truthy_results (s_results s) \<Longrightarrow> results env s = (Inr (s_results s), s)"
  by (simp add: results_def)

lemma get_next_results_exhausted:
  "\<not> truthy (s_current_continuation s) \<Longrightarrow> get_next_results env s = (Inl IndexError, s)"
  by (simp add: get_next_results_def)

lemma calls_fetch_and_parse: "calls (snd (fetch_and_parse env s c)) = Suc (calls s)"
  by (rule fetch_and_parse_cases[of env s c]) simp_all

lemma calls_get_next_results:
  "truthy (s_current_continuation s) \<Longrightarrow> calls (snd (get_next_results env s)) = Suc (calls s)"
  using calls_fetch_and_parse[of env s "s_current_continuation s"]
  by (auto simp: get_next_results_def split: prod.splits sum.splits option.splits)

lemma get_next_results_Inr:
  assumes "get_next_results env s = (Inr u, s')"
  shows "\<exists>raw rs vs c.
     truthy (s_current_continuation s) \<and>
     innertube_search env (calls s) (query s) (param s) (s_current_continuation s) = Inr raw \<and>
     parse_raw_results env raw = Inr (Some vs, c) \<and> s_results s = Some rs \<and>
     s' = (fetched s raw)\<lparr>s_results := Some (rs @ vs), s_current_continuation := c\<rparr>"
proof -
  from assms have t: "truthy (s_current_continuation s)"
    by (auto simp: get_next_results_def split: if_splits)
  show ?thesis
  proof (rule fetch_and_parse_cases[of env s "s_current_continuation s"])
    fix e assume "fetch_and_parse env s (s_current_continuation s) = (Inl e, s\<lparr>calls := Suc (calls s)\<rparr>)"
    with assms t show ?thesis by (simp add: get_next_results_def)
  next
    fix raw
    assume raw: "innertube_search env (calls s) (query s) (param s) (s_current_continuation s) = Inr raw"
      and fp: "fetch_and_parse env s (s_current_continuation s) = (parse_raw_results env raw, fetched s raw)"
    with assms t show ?thesis
      by (auto simp: get_next_results_def split: sum.splits option.splits)
  qed
qed

subsection \<open>The parse of a document\<close>

lemma py_in_False_getitem: "py_in k s = Inr False \<Longrightarrow> \<exists>e. getitem s (Key k) = Inl e"
  by (cases s) (auto simp: map_of_eq_None_iff split: option.splits)

lemma renderers_Cons:
  "renderers k (s # ss) =
     (case getitem s (Key k) of Inl e \<Rightarrow> [] | Inr v \<Rightarrow> [v]) @ renderers k ss"
  by (simp add: renderers_def)

lemma renderers_Nil [simp]: "renderers k [] = []"
  by (simp add: renderers_def)

lemma pick_renderer:
  assumes "py_in k s = Inr b" "(if b then getitem s (Key k) else Inr r) = Inr r'"
  shows "last (r' # renderers k ss) = last (r # renderers k (s # ss))"
proof (cases b)
  case True
  with assms show ?thesis by (simp add: renderers_Cons)
next
  case False
  with assms py_in_False_getitem[of k s] show ?thesis by (auto simp: renderers_Cons)
qed

lemma scan_sections_renderers:
  "scan_sections ss ir cr = Inr (ir', cr') \<Longrightarrow>
   ir' = last (ir # renderers ''itemSectionRenderer'' ss) \<and>
   cr' = last (cr # renderers ''continuationItemRenderer'' ss)"
proof (induction ss arbitrary: ir cr)
  case Nil
  then show ?case by simp
next
  case (Cons s ss)
  from Cons.prems obtain b1 ir1 b2 cr1 where
    s: "py_in ''itemSectionRenderer'' s = Inr b1"
       "(if b1 then getitem s (Key ''itemSectionRenderer'') else Inr ir) = Inr ir1"
       "py_in ''continuationItemRenderer'' s = Inr b2"
       "(if b2 then getitem s (Key ''continuationItemRenderer'') else Inr cr) = Inr cr1"
       "scan_sections ss ir1 cr1 = Inr (ir', cr')"
    by (auto simp: bnd_eq_Inr)
  from Cons.IH[OF s(5)] pick_renderer[OF s(1,2), of ss] pick_renderer[OF s(3,4), of ss]
  show ?case by simp
qed

lemma renderers_absent:
  "\<forall>s\<in>set ss. py_in k s = Inr False \<Longrightarrow> renderers k ss = []"
proof (induction ss)
  case Nil
  then show ?case by simp
next
  case (Cons s ss)
  then have "py_in k s = Inr False" by simp
  from py_in_False_getitem[OF this] Cons show ?case by (auto simp: renderers_Cons)
qed

lemma results_of_JNull [simp]: "results_of env JNull = Inr None"
  by (simp add: results_of_def)

lemma next_continuation_of_JNull [simp]: "next_continuation_of JNull = Inr JNull"
  by (simp add: next_continuation_of_def)

lemma parse_raw_results_Inr:
  assumes "parse_raw_results env raw = Inr (rs, tok)"
    and "locate_sections raw = Inr sections" and "py_iter sections = Inr ss"
  shows "\<exists>ir cr. scan_sections ss JNull JNull = Inr (ir, cr) \<and>
           next_continuation_of cr = Inr tok \<and> results_of env ir = Inr rs"
  using assms by (auto simp: parse_raw_results_def bnd_eq_Inr)

text \<open>The loop over the entries keeps the order of the entries.\<close>

lemma parse_contents_acc:
  "parse_contents env cs acc = Inr rs \<Longrightarrow> rs = acc @ List.map_filter (entry_result env) cs"
proof (induction cs arbitrary: acc)
  case Nil
  then show ?case by (simp add: List.map_filter_simps)
next
  case (Cons d cs)
  from Cons.prems obtain r where r: "parse_entry env d = Inr r"
    "parse_contents env cs (case r of None \<Rightarrow> acc | Some x \<Rightarrow> acc @ [x]) = Inr rs"
    by (auto simp: bnd_eq_Inr)
  from Cons.IH[OF r(2)] r(1) show ?case
    by (cases r) (simp_all add: List.map_filter_simps entry_result_def)
qed

lemma parse_contents_append:
  "parse_contents env (pre @ post) acc =
     bnd (parse_contents env pre acc) (parse_contents env post)"
proof (induction pre arbitrary: acc)
  case Nil
  then show ?case by simp
next
  case (Cons d pre)
  then show ?case by (cases "parse_entry env d") simp_all
qed

lemma parse_entry_discard: "discard_variant d \<Longrightarrow> parse_entry env d = Inr None"
proof (cases d)
  case (JObj kvs)
  assume "discard_variant d"
  with JObj have ok: "pyv_is_dict kvs" and
    v: "has_ads kvs \<or> has_key ''shelfRenderer'' kvs \<or> has_key ''radioRenderer'' kvs \<or>
       has_key ''playlistRenderer'' kvs \<or> has_key ''horizontalCardListRenderer'' kvs \<or>
       has_key ''didYouMeanRenderer'' kvs \<or> has_key ''backgroundPromoRenderer'' kvs"
    by simp_all
  show ?thesis
  proof (cases "map_of kvs ''searchPyvRenderer''")
    case None
    with v JObj show ?thesis by (auto simp: has_ads_def)
  next
    case (Some pyv)
    with ok obtain pkvs where pyv: "pyv = JObj pkvs"
      by (cases pyv) (simp_all add: pyv_is_dict_def)
    with Some v JObj show ?thesis
      by (auto simp: has_ads_def split: option.splits)
  qed
qed simp_all

lemma parse_contents_discard:
  "list_all discard_variant cs \<Longrightarrow> parse_contents env cs acc = Inr acc"
  by (induction cs) (simp_all add: parse_entry_discard)

lemma parse_entry_unrecognized: "unrecognized d \<Longrightarrow> parse_entry env d = Inr None"
proof (cases d)
  case (JObj kvs)
  assume "unrecognized d"
  with JObj have k: "\<not> has_key ''searchPyvRenderer'' kvs" "\<not> has_key ''shelfRenderer'' kvs"
    "\<not> has_key ''radioRenderer'' kvs" "\<not> has_key ''playlistRenderer'' kvs"
    "\<not> has_key ''horizontalCardListRenderer'' kvs" "\<not> has_key ''didYouMeanRenderer'' kvs"
    "\<not> has_key ''backgroundPromoRenderer'' kvs" "\<not> has_key ''videoRenderer'' kvs"
    "\<not> has_key ''channelRenderer'' kvs"
    by simp_all
  from k(1) have "map_of kvs ''searchPyvRenderer'' = None"
    by (simp add: has_key_def map_of_eq_None_iff)
  with k JObj show ?thesis by simp
qed simp_all

lemma results_Some:
  "results env s = (Inr vs, s1) \<Longrightarrow> s_results s1 = vs"
  by (auto simp: results_def split: if_splits prod.splits sum.splits)

lemma results_of_Some:
  assumes "results_of env ir = Inr (Some vs)"
  shows "\<exists>contents cs. getitem ir (Key ''contents'') = Inr contents \<and>
           py_iter contents = Inr cs \<and> vs = List.map_filter (entry_result env) cs"
proof -
  from assms obtain contents cs where
    "getitem ir (Key ''contents'') = Inr contents" "py_iter contents = Inr cs"
    "parse_contents env cs [] = Inr vs"
    by (auto simp: results_of_def bnd_eq_Inr split: if_splits)
  with parse_contents_acc[of env cs "[]" vs] show ?thesis by simp
qed

subsection \<open>Pages, documents and failing entries\<close>

lemma next_continuation_of_token:
  "next_continuation_of cr = Inr c \<Longrightarrow>
   (case getpath cr [Key ''continuationEndpoint'', Key ''continuationCommand'', Key ''token''] of
      Inl e \<Rightarrow> JNull | Inr token \<Rightarrow> token) = c"
proof (cases "truthy cr")
  case True
  assume "next_continuation_of cr = Inr c"
  with True show ?thesis by (simp add: next_continuation_of_def del: getpath.simps)
next
  case False
  assume "next_continuation_of cr = Inr c"
  with False have c: "c = JNull" by (simp add: next_continuation_of_def)
  from False have "\<exists>e. getitem cr (Key ''continuationEndpoint'') = Inl e"
    by (cases cr) auto
  with c show ?thesis by auto
qed

lemma parse_raw_results_extracted:
  assumes "parse_raw_results env raw = Inr (Some vs, c)"
  shows "vs = extracted env raw \<and> c = token_of raw"
proof -
  from assms obtain sections ss where loc: "locate_sections raw = Inr sections"
    and it: "py_iter sections = Inr ss"
    by (auto simp: parse_raw_results_def bnd_eq_Inr)
  from parse_raw_results_Inr[OF assms loc it] obtain ir cr where
    sc: "scan_sections ss JNull JNull = Inr (ir, cr)"
    and nc: "next_continuation_of cr = Inr c" and ro: "results_of env ir = Inr (Some vs)"
    by blast
  from scan_sections_renderers[OF sc]
  have ir: "ir = last (JNull # renderers ''itemSectionRenderer'' ss)"
    and cr: "cr = last (JNull # renderers ''continuationItemRenderer'' ss)"
    by simp_all
  from results_of_Some[OF ro] obtain contents cs where
    "getitem ir (Key ''contents'') = Inr contents" "py_iter contents = Inr cs"
    "vs = List.map_filter (entry_result env) cs"
    by blast
  with loc it ir have 1: "vs = extracted env raw"
    by (simp add: extracted_def entries_of_def)
  from next_continuation_of_token[OF nc] loc it cr have 2: "c = token_of raw"
    by (simp add: token_of_def del: getpath.simps)
  from 1 2 show ?thesis by simp
qed

lemma get_next_results_n_documents:
  "get_next_results_n env n s = (Inr u, s') \<Longrightarrow> s_results s = Some rs \<Longrightarrow>
   s_results s' = Some (rs @ concat (map (extracted env)
     (documents env (query s) (param s) (calls s) (s_current_continuation s) n))) \<and>
   length (documents env (query s) (param s) (calls s) (s_current_continuation s) n) = n"
proof (induction n arbitrary: s rs)
  case 0
  then show ?case by simp
next
  case (Suc n)
  from Suc.prems(1) obtain v s1 where s1: "get_next_results env s = (Inr v, s1)"
    "get_next_results_n env n s1 = (Inr u, s')"
    by (auto split: prod.splits sum.splits)
  from get_next_results_Inr[OF s1(1)] Suc.prems(2) obtain raw vs c where
    raw: "innertube_search env (calls s) (query s) (param s) (s_current_continuation s) = Inr raw"
    and pr: "parse_raw_results env raw = Inr (Some vs, c)"
    and s1': "s1 = (fetched s raw)\<lparr>s_results := Some (rs @ vs), s_current_continuation := c\<rparr>"
    by auto
  from parse_raw_results_extracted[OF pr] have vs: "vs = extracted env raw" "c = token_of raw"
    by simp_all
  from s1' have f: "s_results s1 = Some (rs @ vs)" "query s1 = query s" "param s1 = param s"
    "calls s1 = Suc (calls s)" "s_current_continuation s1 = c"
    by simp_all
  from Suc.IH[OF s1(2) f(1)] f raw vs show ?case by simp
qed

lemma results_first_document:
  assumes "\<not> truthy_results (s_results s)" "results env s = (Inr (Some first), s1)"
  shows "\<exists>raw. innertube_search env (calls s) (query s) (param s) JNull = Inr raw \<and>
     first = extracted env raw \<and> s_results s1 = Some first \<and> query s1 = query s \<and>
     param s1 = param s \<and> calls s1 = Suc (calls s) \<and> s_current_continuation s1 = token_of raw"
proof (rule fetch_and_parse_cases[of env s JNull])
  fix e assume "fetch_and_parse env s JNull = (Inl e, s\<lparr>calls := Suc (calls s)\<rparr>)"
  with assms show ?thesis by (simp add: results_def)
next
  fix raw assume raw: "innertube_search env (calls s) (query s) (param s) JNull = Inr raw"
    and fp: "fetch_and_parse env s JNull = (parse_raw_results env raw, fetched s raw)"
  from assms fp obtain c where pr: "parse_raw_results env raw = Inr (Some first, c)"
    and s1: "s1 = (fetched s raw)\<lparr>s_results := Some first, s_current_continuation := c\<rparr>"
    by (auto simp: results_def split: sum.splits)
  from parse_raw_results_extracted[OF pr] s1 raw show ?thesis by simp
qed

lemma parse_entry_reaches_video:
  assumes "reaches_video kvs"
  shows "parse_entry env (JObj kvs) = bnd (parse_video env (JObj kvs)) (\<lambda>r. Inr (Some r))"
proof -
  from assms have ok: "pyv_is_dict kvs" and na: "\<not> has_ads kvs"
    and k: "\<not> has_key ''shelfRenderer'' kvs" "\<not> has_key ''radioRenderer'' kvs"
      "\<not> has_key ''playlistRenderer'' kvs" "\<not> has_key ''horizontalCardListRenderer'' kvs"
      "\<not> has_key ''didYouMeanRenderer'' kvs" "\<not> has_key ''backgroundPromoRenderer'' kvs"
      "has_key ''videoRenderer'' kvs"
    by (simp_all add: reaches_video_def)
  show ?thesis
  proof (cases "map_of kvs ''searchPyvRenderer''")
    case None
    with k show ?thesis by simp
  next
    case (Some pyv)
    with ok obtain pkvs where pyv: "pyv = JObj pkvs"
      by (cases pyv) (simp_all add: pyv_is_dict_def)
    with Some na have "\<not> truthy (case map_of pkvs ''ads'' of None \<Rightarrow> JNull | Some v \<Rightarrow> v)"
      by (auto simp: has_ads_def split: option.splits)
    with Some pyv k show ?thesis by simp
  qed
qed

lemma video_details_metadata_views:
  assumes "getitem d (Key ''videoRenderer'') = Inr renderer" "fields_before_views renderer"
    "view_count_of renderer = Inl e"
  shows "video_details_metadata env d = Inl e"
proof -
  from assms(2) obtain vid title channel_name channel_uri where
    "getitem renderer (Key ''videoId'') = Inr vid"
    "getpath renderer [Key ''title'', Key ''runs'', Index0, Key ''text''] = Inr title"
    "getpath renderer [Key ''ownerText'', Key ''runs'', Index0, Key ''text''] = Inr channel_name"
    "getpath renderer [Key ''ownerText'', Key ''runs'', Index0, Key ''navigationEndpoint'',
       Key ''commandMetadata'', Key ''webCommandMetadata'', Key ''url''] = Inr channel_uri"
    unfolding fields_before_views_def
    by (auto simp: bnd_eq_Inr simp del: getpath.simps split: sum.splits)
  with assms(1,3) show ?thesis
    by (simp add: video_details_metadata_def del: getpath.simps)
qed

lemma read_digits_error: "read_digits cs acc = Inl e \<Longrightarrow> e = ValueError"
  by (induction cs acc rule: read_digits.induct) (auto split: if_splits)

lemma read_number_error: "read_number cs = Inl e \<Longrightarrow> e = ValueError"
  by (auto simp: read_number_def split: list.splits if_splits dest: read_digits_error)

lemma py_int_error: "py_int x = Inl e \<Longrightarrow> e = ValueError"
  unfolding py_int_def
  by (cases "strip x") (auto simp: bnd_def split: if_splits sum.splits dest: read_number_error)

lemma count_of_text_words:
  "count_of_text (JStr t) =
     (case split_words t of
        [] \<Rightarrow> Inl IndexError
      | w # ws \<Rightarrow> if remove_commas w = ''No'' then Inr 0 else py_int (remove_commas w))"
  by (cases "split_words t") (simp_all add: count_of_text_def)

lemma view_count_of_simple_text:
  assumes "map_of r ''viewCountText'' = Some (JObj vct)" "map_of vct ''runs'' = None"
    "map_of vct ''simpleText'' = Some t"
  shows "view_count_of (JObj r) = count_of_text t"
  using assms by (simp add: view_count_of_def py_in_obj del: py_in.simps)

lemma video_entry_view_failure:
  assumes "reaches_video kvs" "map_of kvs ''videoRenderer'' = Some (JObj r)"
    "fields_before_views (JObj r)" "map_of r ''viewCountText'' = Some (JObj vct)"
    "map_of vct ''runs'' = None" "map_of vct ''simpleText'' = Some (JStr t)"
    "count_of_text (JStr t) = Inl e"
  shows "parse_entry env (JObj kvs) = Inl e"
proof -
  from assms(2) have g: "getitem (JObj kvs) (Key ''videoRenderer'') = Inr (JObj r)" by simp
  from view_count_of_simple_text[OF assms(4,5,6)] assms(7)
  have "view_count_of (JObj r) = Inl e" by simp
  from video_details_metadata_views[OF g assms(3) this]
  have "parse_video env (JObj kvs) = Inl e" by (simp add: parse_video_def)
  with parse_entry_reaches_video[OF assms(1)] show ?thesis by simp
qed

lemma page_failure:
  assumes raw: "innertube_search env (calls s) (query s) (param s) c = Inr raw"
    and loc: "locate_sections raw = Inr sections" and it: "py_iter sections = Inr ss"
    and sc: "scan_sections ss JNull JNull = Inr (ir, cr)"
    and nc: "next_continuation_of cr = Inr tok"
    and co: "getitem ir (Key ''contents'') = Inr contents" and ci: "py_iter contents = Inr cs"
    and pc: "parse_contents env cs [] = Inl e"
  shows "fetch_and_parse env s c = (Inl e, fetched s raw)"
proof -
  from co have "truthy ir" by (rule getitem_Key_truthy)
  with co ci pc have "results_of env ir = Inl e" by (simp add: results_of_def)
  with loc it sc nc have "parse_raw_results env raw = Inl e"
    by (simp add: parse_raw_results_def)
  with raw show ?thesis by (simp add: fetch_and_parse_Inr)
qed

subsection \<open>What the calls keep\<close>

lemma linked_fetched: "linked s \<Longrightarrow> linked (fetched s raw)"
  by (auto simp: linked_def)

lemma linked_fetched_truthy:
  "truthy raw \<Longrightarrow> linked ((fetched s raw)\<lparr>s_results := r, s_current_continuation := c\<rparr>)"
  by (auto simp: linked_def)

lemma linked_calls: "linked s \<Longrightarrow> linked (s\<lparr>calls := n\<rparr>)"
  by (auto simp: linked_def)

lemma linked_results: "linked s \<Longrightarrow> linked (snd (results env s))"
proof (cases "truthy_results (s_results s)")
  case True
  assume "linked s"
  with True show ?thesis by (simp add: results_def)
next
  case False
  assume l: "linked s"
  show ?thesis
  proof (rule fetch_and_parse_cases[of env s JNull])
    fix e assume "fetch_and_parse env s JNull = (Inl e, s\<lparr>calls := Suc (calls s)\<rparr>)"
    with False l show ?thesis by (simp add: results_def linked_calls)
  next
    fix raw assume fp: "fetch_and_parse env s JNull = (parse_raw_results env raw, fetched s raw)"
    show ?thesis
    proof (cases "parse_raw_results env raw")
      case (Inl e)
      with fp False l show ?thesis by (simp add: results_def linked_fetched)
    next
      case (Inr x)
      from parse_raw_results_truthy[OF Inr] have "truthy raw" .
      with fp False Inr show ?thesis
        by (cases x) (simp add: results_def linked_fetched_truthy)
    qed
  qed
qed

lemma linked_get_next_results: "linked s \<Longrightarrow> linked (snd (get_next_results env s))"
proof (cases "truthy (s_current_continuation s)")
  case False
  assume "linked s"
  with False show ?thesis by (simp add: get_next_results_def)
next
  case True
  assume l: "linked s"
  show ?thesis
  proof (rule fetch_and_parse_cases[of env s "s_current_continuation s"])
    fix e assume "fetch_and_parse env s (s_current_continuation s) = (Inl e, s\<lparr>calls := Suc (calls s)\<rparr>)"
    with True l show ?thesis by (simp add: get_next_results_def linked_calls)
  next
    fix raw
    assume fp: "fetch_and_parse env s (s_current_continuation s) = (parse_raw_results env raw, fetched s raw)"
    show ?thesis
    proof (cases "parse_raw_results env raw")
      case (Inl e)
      with fp True l show ?thesis by (simp add: get_next_results_def linked_fetched)
    next
      case (Inr x)
      from parse_raw_results_truthy[OF Inr] have "truthy raw" .
      with fp True Inr l show ?thesis
        by (cases x)
          (auto simp: get_next_results_def linked_fetched_truthy linked_fetched
            split: option.splits)
    qed
  qed
qed

lemma linked_suggestions_update: "linked s \<Longrightarrow> linked (s\<lparr>s_completion_suggestions := v\<rparr>)"
  by (simp add: linked_def)

lemma linked_completion_suggestions:
  "linked s \<Longrightarrow> linked (snd (completion_suggestions env s))"
  using linked_results[of s env]
  by (auto simp: completion_suggestions_def linked_suggestions_update
      split: prod.splits sum.splits)

lemma reachable_linked: "reachable env s \<Longrightarrow> linked s"
proof (induction rule: reachable.induct)
  case (new q p)
  show ?case by (simp add: linked_def Search_def)
qed (simp_all add: linked_results linked_get_next_results linked_completion_suggestions)

lemma get_next_results_frame:
  "s_completion_suggestions (snd (get_next_results env s)) = s_completion_suggestions s \<and>
   query (snd (get_next_results env s)) = query s \<and>
   param (snd (get_next_results env s)) = param s"
  by (rule fetch_and_parse_cases[of env s "s_current_continuation s"])
     (auto simp: get_next_results_def split: sum.splits option.splits)

lemma get_next_results_initial:
  "linked s \<Longrightarrow> s_initial_results (snd (get_next_results env s)) = s_initial_results s"
  by (rule fetch_and_parse_cases[of env s "s_current_continuation s"])
     (auto simp: get_next_results_def linked_def split: sum.splits option.splits)

lemma get_next_results_initial_truthy:
  "truthy (s_initial_results s) \<Longrightarrow>
   s_initial_results (snd (get_next_results env s)) = s_initial_results s"
  by (rule get_next_results_initial) (simp add: linked_def)

lemma get_next_results_truthy_results:
  "truthy_results (s_results s) \<Longrightarrow> truthy_results (s_results (snd (get_next_results env s)))"
  by (rule fetch_and_parse_cases[of env s "s_current_continuation s"])
     (auto simp: get_next_results_def split: sum.splits option.splits)

lemma settled_get_next_results:
  assumes "settled v s"
  shows "settled v (snd (get_next_results env s))"
proof (cases "truthy v")
  case True
  with assms get_next_results_frame[of env s] show ?thesis by (simp add: settled_def)
next
  case False
  with assms have r: "truthy_results (s_results s)"
    and g: "getitem (s_initial_results s) (Key ''refinements'') = Inr v"
    and c: "s_completion_suggestions s = v"
    by (simp_all add: settled_def)
  from getitem_Key_truthy[OF g] have "truthy (s_initial_results s)" .
  from get_next_results_initial_truthy[OF this, of env] g
  have "getitem (s_initial_results (snd (get_next_results env s))) (Key ''refinements'') = Inr v"
    by simp
  with get_next_results_truthy_results[OF r, of env] get_next_results_frame[of env s] c
  show ?thesis by (simp add: settled_def)
qed

lemma settled_after_calls: "settled v s \<Longrightarrow> settled v (after_calls env n s)"
  by (induction n arbitrary: s) (simp_all add: settled_get_next_results)

lemma settled_completion_suggestions:
  "settled v s \<Longrightarrow> completion_suggestions env s = (Inr v, s)"
  by (auto simp: settled_def completion_suggestions_def results_cached)

lemma completion_suggestions_settled:
  assumes "completion_suggestions env s = (Inr v, s1)" "truthy_results (s_results s1)"
  shows "settled v s1"
proof (cases "truthy (s_completion_suggestions s)")
  case True
  with assms show ?thesis by (auto simp: completion_suggestions_def settled_def)
next
  case False
  obtain r s' where r: "results env s = (r, s')" by (cases "results env s")
  with False assms(1) obtain rs where rs: "r = Inr rs"
    by (cases r) (auto simp: completion_suggestions_def)
  from results_Some[of env s rs s'] r rs have sr: "s_results s' = rs" by simp
  show ?thesis
  proof (cases "truthy_results rs")
    case True
    with False assms r rs sr show ?thesis
      by (auto simp: completion_suggestions_def settled_def split: sum.splits)
  next
    case nt: False
    with False assms(1) r rs have "s1 = s'" by (simp add: completion_suggestions_def)
    with sr nt assms(2) show ?thesis by simp
  qed
qed

lemma reachable_after_calls: "reachable env s \<Longrightarrow> reachable env (after_calls env n s)"
  by (induction n arbitrary: s) (simp_all add: reachable.by_next)

lemma after_calls_initial:
  "reachable env s \<Longrightarrow> s_initial_results (after_calls env n s) = s_initial_results s"
proof (induction n arbitrary: s)
  case 0
  then show ?case by simp
next
  case (Suc n)
  from Suc.prems have "linked s" by (rule reachable_linked)
  from get_next_results_initial[OF this, of env] Suc.IH[OF reachable.by_next[OF Suc.prems]]
  show ?case by simp
qed

lemma fresh_suggestions:
  assumes "completion_suggestions env (Search q p) = (Inr v, s1)"
  shows "v = JNull \<or>
    (\<exists>raw. innertube_search env 0 q p JNull = Inr raw \<and> getitem raw (Key ''refinements'') = Inr v)"
proof (rule fetch_and_parse_cases[of env "Search q p" JNull])
  fix e assume "fetch_and_parse env (Search q p) JNull = (Inl e, (Search q p)\<lparr>calls := Suc (calls (Search q p))\<rparr>)"
  with assms show ?thesis
    by (simp add: completion_suggestions_def results_def Search_def)
next
  fix raw
  assume raw: "innertube_search env (calls (Search q p)) (query (Search q p)) (param (Search q p)) JNull = Inr raw"
    and fp: "fetch_and_parse env (Search q p) JNull = (parse_raw_results env raw, fetched (Search q p) raw)"
  from raw have r0: "innertube_search env 0 q p JNull = Inr raw" by (simp add: Search_def)
  have f: "s_initial_results (fetched (Search q p) raw) = raw"
    "s_completion_suggestions (fetched (Search q p) raw) = JNull"
    "s_results (Search q p) = None" "s_completion_suggestions (Search q p) = JNull"
    by (simp_all add: Search_def)
  from assms fp f r0 show ?thesis
    by (auto simp: completion_suggestions_def results_def split: sum.splits if_splits)
qed

lemma suggestions_read_from_stored_document:
  assumes "\<not> truthy (s_completion_suggestions s)" "completion_suggestions env s = (Inr v, s1)"
    "truthy_results (s_results s1)"
  shows "getitem (s_initial_results s1) (Key ''refinements'') = Inr v"
proof -
  obtain r s' where r: "results env s = (r, s')" by (cases "results env s")
  with assms(1,2) obtain rs where rs: "r = Inr rs"
    by (cases r) (auto simp: completion_suggestions_def)
  from results_Some[of env s rs s'] r rs have sr: "s_results s' = rs" by simp
  show ?thesis
  proof (cases "truthy_results rs")
    case True
    with assms r rs show ?thesis
      by (auto simp: completion_suggestions_def split: sum.splits)
  next
    case False
    with assms(1,2) r rs have "s1 = s'" by (simp add: completion_suggestions_def)
    with sr False assms(3) show ?thesis by simp
  qed
qed

subsection \<open>The example sessions, evaluated\<close>

lemma three_pages_results:
  "results three_pages query0 =
   (Inr (Some [Channel ''https://www.youtube.com/channel/UC1'']),
    \<lparr>query = ''q'', param = None,
     s_initial_results = initial_page [item_section [channel_entry ''UC1''],
                                       continuation_item ''t1''] [JStr ''x''],
     s_results = Some [Channel ''https://www.youtube.com/channel/UC1''],
     s_completion_suggestions = JNull, s_current_continuation = JStr ''t1'', calls = 1\<rparr>)"
  by code_simp

lemma three_pages_next:
  "get_next_results_n three_pages 2 (snd (results three_pages query0)) =
   (Inr (),
    \<lparr>query = ''q'', param = None,
     s_initial_results = initial_page [item_section [channel_entry ''UC1''],
                                       continuation_item ''t1''] [JStr ''x''],
     s_results = Some [Channel ''https://www.youtube.com/channel/UC1'',
                       Channel ''https://www.youtube.com/channel/UC2'',
                       Channel ''https://www.youtube.com/channel/UC3''],
     s_completion_suggestions = JNull, s_current_continuation = JNull, calls = 3\<rparr>)"
  by code_simp

lemma three_pages_one_next:
  "get_next_results three_pages (snd (results three_pages query0)) =
   (Inr (),
    \<lparr>query = ''q'', param = None,
     s_initial_results = initial_page [item_section [channel_entry ''UC1''],
                                       continuation_item ''t1''] [JStr ''x''],
     s_results = Some [Channel ''https://www.youtube.com/channel/UC1'',
                       Channel ''https://www.youtube.com/channel/UC2''],
     s_completion_suggestions = JNull, s_current_continuation = JStr ''t2'', calls = 2\<rparr>)"
  by code_simp

lemma three_pages_last_fetch:
  "fst (fetch_and_parse three_pages
          (snd (get_next_results three_pages (snd (results three_pages query0))))
          (s_current_continuation
            (snd (get_next_results three_pages (snd (results three_pages query0)))))) =
   Inr (Some [Channel ''https://www.youtube.com/channel/UC3''], JNull)"
  by code_simp

lemma no_continuation_results:
  "results no_continuation query0 =
     (Inr (Some []), snd (results no_continuation query0)) \<and>
   fst (fetch_and_parse no_continuation query0 JNull) = Inr (Some [], JNull) \<and>
   \<not> truthy_results (s_results query0)"
  by code_simp

lemma three_pages_second_next:
  "get_next_results three_pages
     (snd (get_next_results three_pages (snd (results three_pages query0)))) =
   (Inr (), snd (get_next_results_n three_pages 2 (snd (results three_pages query0))))"
  by code_simp

lemma unknown_entry_unrecognized: "unrecognized unknown_entry"
  by (simp add: unknown_entry_def has_key_def)

lemma bad_views_entry:
  "parse_entry (serving []) (video_entry ''abcdefghijk'' ''abc views'') = Inl ValueError"
  by code_simp

lemma channel_contents:
  "parse_contents (serving []) [channel_entry ''UC1''] [] =
     Inr [Channel ''https://www.youtube.com/channel/UC1'']"
  "parse_contents (serving []) [channel_entry ''UC1'', channel_entry ''UC2''] [] =
     Inr [Channel ''https://www.youtube.com/channel/UC1'',
          Channel ''https://www.youtube.com/channel/UC2'']"
  by code_simp+

lemma no_item_section_fetch:
  "fst (fetch_and_parse no_item_section query0 JNull) = Inr (None, JStr ''t'')"
  by code_simp

lemma no_continuation_fetch:
  "fst (fetch_and_parse no_continuation query0 JNull) = Inr (Some [], JNull)"
  by code_simp

lemma serving_one [simp]: "innertube_search (serving [d]) n q p c = Inr d"
  by (simp add: serving_def)

lemma locate_initial_page [simp]:
  "locate_sections (initial_page sections refinements) = Inr (JList sections)"
  by (simp add: locate_sections_def initial_page_def)

lemma discard_examples: "list_all discard_variant [shelf_entry, ad_entry]"
  by (simp add: shelf_entry_def ad_entry_def has_key_def has_ads_def pyv_is_dict_def)

lemma discards_only_scan:
  "scan_sections [item_section [shelf_entry, ad_entry], continuation_item ''t''] JNull JNull =
     Inr (JObj [(''contents'', JList [shelf_entry, ad_entry])],
          JObj [(''continuationEndpoint'',
                 JObj [(''continuationCommand'', JObj [(''token'', JStr ''t'')])])])"
  by (simp add: item_section_def continuation_item_def)

lemma three_pages_suggestions:
  "completion_suggestions three_pages query0 =
     (Inr (JList [JStr ''x'']), snd (completion_suggestions three_pages query0)) \<and>
   truthy_results (s_results (snd (completion_suggestions three_pages query0))) \<and>
   s_initial_results (snd (completion_suggestions three_pages query0)) =
     initial_page [item_section [channel_entry ''UC1''], continuation_item ''t1''] [JStr ''x''] \<and>
   innertube_search three_pages 0 ''q'' None JNull =
     Inr (initial_page [item_section [channel_entry ''UC1''], continuation_item ''t1'']
            [JStr ''x''])"
  by code_simp

lemma three_pages_calls_made:
  "calls (after_calls three_pages 2 (snd (completion_suggestions three_pages query0))) = 3 \<and>
   s_results (after_calls three_pages 2 (snd (completion_suggestions three_pages query0))) =
     Some [Channel ''https://www.youtube.com/channel/UC1'',
           Channel ''https://www.youtube.com/channel/UC2'',
           Channel ''https://www.youtube.com/channel/UC3'']"
  by code_simp

lemma then_malformed_first:
  "truthy (s_current_continuation (snd (results then_malformed query0))) \<and>
   innertube_search then_malformed (calls (snd (results then_malformed query0)))
     (query (snd (results then_malformed query0))) (param (snd (results then_malformed query0)))
     (s_current_continuation (snd (results then_malformed query0))) = Inr malformed \<and>
   locate_sections malformed = Inl KeyError \<and>
   truthy (s_initial_results (snd (results then_malformed query0))) \<and>
   \<not> truthy_results (s_results query0) \<and>
   innertube_search (serving [malformed]) (calls query0) (query query0) (param query0) JNull =
     Inr malformed"
  by code_simp

lemma video_entry_renderer:
  "video_entry vid views = JObj [(''videoRenderer'', JObj (video_renderer vid views))]"
  by (simp add: video_entry_def video_renderer_def)

lemma ordered_pages_run:
  "results ordered_pages query0 =
     (Inr (Some [Channel ''https://www.youtube.com/channel/UCA'',
                 Channel ''https://www.youtube.com/channel/UCB'']),
      snd (results ordered_pages query0)) \<and>
   get_next_results_n ordered_pages 2 (snd (results ordered_pages query0)) =
     (Inr (), snd (get_next_results_n ordered_pages 2 (snd (results ordered_pages query0)))) \<and>
   \<not> truthy_results (s_results query0) \<and>
   query query0 = ''q'' \<and> param query0 = None \<and> calls query0 = 0"
  by code_simp

lemma ordered_pages_documents:
  "documents ordered_pages ''q'' None 0 JNull 3 =
     [initial_page [item_section [channel_entry ''UCA'', shelf_entry, channel_entry ''UCB''],
                    continuation_item ''t1''] [],
      continuation_page [item_section [channel_entry ''UCC'', unknown_entry,
                                       channel_entry ''UCD''],
                         continuation_item ''t2''],
      continuation_page [item_section [channel_entry ''UCE'', channel_entry ''UCF'']]]"
  by code_simp

lemma ordered_pages_entries:
  "entries_of (continuation_page [item_section [channel_entry ''UCC'', unknown_entry,
                 channel_entry ''UCD''], continuation_item ''t2'']) =
     [channel_entry ''UCC'', unknown_entry, channel_entry ''UCD'']"
  by code_simp

lemma ordered_pages_extracted:
  "concat (map (\<lambda>raw. List.map_filter (entry_result ordered_pages) (entries_of raw))
     (documents ordered_pages ''q'' None 0 JNull 3)) =
     [Channel ''https://www.youtube.com/channel/UCA'',
      Channel ''https://www.youtube.com/channel/UCB'',
      Channel ''https://www.youtube.com/channel/UCC'',
      Channel ''https://www.youtube.com/channel/UCD'',
      Channel ''https://www.youtube.com/channel/UCE'',
      Channel ''https://www.youtube.com/channel/UCF'']"
  by code_simp

lemma empty_token_run:
  "results empty_token query0 =
     (Inr (Some [Channel ''https://www.youtube.com/channel/UC1'']),
      snd (results empty_token query0)) \<and>
   s_current_continuation (snd (results empty_token query0)) = JStr '''' \<and>
   calls (snd (results empty_token query0)) = 1 \<and>
   get_next_results empty_token (snd (results empty_token query0)) =
     (Inl IndexError, snd (results empty_token query0))"
  by code_simp

lemma bad_video_facts:
  "reaches_video [(''videoRenderer'', JObj (video_renderer ''abcdefghijk'' ''abc views''))] \<and>
   map_of [(''videoRenderer'', JObj (video_renderer ''abcdefghijk'' ''abc views''))]
     ''videoRenderer'' = Some (JObj (video_renderer ''abcdefghijk'' ''abc views'')) \<and>
   fields_before_views (JObj (video_renderer ''abcdefghijk'' ''abc views'')) \<and>
   map_of (video_renderer ''abcdefghijk'' ''abc views'') ''viewCountText'' =
     Some (JObj [(''simpleText'', JStr ''abc views'')]) \<and>
   map_of [(''simpleText'', JStr ''abc views'')] ''runs'' = None \<and>
   map_of [(''simpleText'', JStr ''abc views'')] ''simpleText'' = Some (JStr ''abc views'') \<and>
   split_words ''abc views'' = [''abc'', ''views''] \<and>
   remove_commas ''abc'' \<noteq> ''No'' \<and>
   py_int (remove_commas ''abc'') = Inl ValueError"
  by code_simp

lemma blank_video_facts:
  "reaches_video [(''videoRenderer'', JObj (video_renderer ''abcdefghijk'' '' ''))] \<and>
   map_of [(''videoRenderer'', JObj (video_renderer ''abcdefghijk'' '' ''))]
     ''videoRenderer'' = Some (JObj (video_renderer ''abcdefghijk'' '' '')) \<and>
   fields_before_views (JObj (video_renderer ''abcdefghijk'' '' '')) \<and>
   map_of (video_renderer ''abcdefghijk'' '' '') ''viewCountText'' =
     Some (JObj [(''simpleText'', JStr '' '')]) \<and>
   map_of [(''simpleText'', JStr '' '')] ''runs'' = None \<and>
   map_of [(''simpleText'', JStr '' '')] ''simpleText'' = Some (JStr '' '') \<and>
   split_words '' '' = []"
  by code_simp

lemma with_views_page:
  "innertube_search (with_views ''abc views'') (calls query0) (query query0) (param query0) JNull =
     Inr (initial_page [item_section [channel_entry ''UC1'',
            video_entry ''abcdefghijk'' ''abc views'', channel_entry ''UC2'']] []) \<and>
   locate_sections (initial_page [item_section [channel_entry ''UC1'',
            video_entry ''abcdefghijk'' ''abc views'', channel_entry ''UC2'']] []) =
     Inr (JList [item_section [channel_entry ''UC1'',
            video_entry ''abcdefghijk'' ''abc views'', channel_entry ''UC2'']]) \<and>
   py_iter (JList [item_section [channel_entry ''UC1'',
            video_entry ''abcdefghijk'' ''abc views'', channel_entry ''UC2'']]) =
     Inr [item_section [channel_entry ''UC1'',
            video_entry ''abcdefghijk'' ''abc views'', channel_entry ''UC2'']] \<and>
   scan_sections [item_section [channel_entry ''UC1'',
            video_entry ''abcdefghijk'' ''abc views'', channel_entry ''UC2'']] JNull JNull =
     Inr (JObj [(''contents'', JList [channel_entry ''UC1'',
            video_entry ''abcdefghijk'' ''abc views'', channel_entry ''UC2''])], JNull) \<and>
   next_continuation_of JNull = Inr JNull \<and>
   getitem (JObj [(''contents'', JList [channel_entry ''UC1'',
            video_entry ''abcdefghijk'' ''abc views'', channel_entry ''UC2''])])
       (Key ''contents'') =
     Inr (JList [channel_entry ''UC1'', video_entry ''abcdefghijk'' ''abc views'',
                 channel_entry ''UC2'']) \<and>
   py_iter (JList [channel_entry ''UC1'', video_entry ''abcdefghijk'' ''abc views'',
                 channel_entry ''UC2'']) =
     Inr [channel_entry ''UC1'', video_entry ''abcdefghijk'' ''abc views'',
          channel_entry ''UC2''] \<and>
   parse_contents (with_views ''abc views'') [channel_entry ''UC1'',
       video_entry ''abcdefghijk'' ''abc views'', channel_entry ''UC2''] [] = Inl ValueError \<and>
   \<not> truthy_results (s_results query0)"
  by code_simp

lemma bad_second_page_facts:
  "innertube_search bad_second_page (calls (snd (results bad_second_page query0)))
       (query (snd (results bad_second_page query0)))
       (param (snd (results bad_second_page query0)))
       (s_current_continuation (snd (results bad_second_page query0))) =
     Inr (continuation_page [item_section [channel_entry ''UC2'',
            video_entry ''abcdefghijk'' ''abc views'', channel_entry ''UC3'']]) \<and>
   locate_sections (continuation_page [item_section [channel_entry ''UC2'',
            video_entry ''abcdefghijk'' ''abc views'', channel_entry ''UC3'']]) =
     Inr (JList [item_section [channel_entry ''UC2'',
            video_entry ''abcdefghijk'' ''abc views'', channel_entry ''UC3'']]) \<and>
   py_iter (JList [item_section [channel_entry ''UC2'',
            video_entry ''abcdefghijk'' ''abc views'', channel_entry ''UC3'']]) =
     Inr [item_section [channel_entry ''UC2'',
            video_entry ''abcdefghijk'' ''abc views'', channel_entry ''UC3'']] \<and>
   scan_sections [item_section [channel_entry ''UC2'',
            video_entry ''abcdefghijk'' ''abc views'', channel_entry ''UC3'']] JNull JNull =
     Inr (JObj [(''contents'', JList [channel_entry ''UC2'',
            video_entry ''abcdefghijk'' ''abc views'', channel_entry ''UC3''])], JNull) \<and>
   next_continuation_of JNull = Inr JNull \<and>
   getitem (JObj [(''contents'', JList [channel_entry ''UC2'',
            video_entry ''abcdefghijk'' ''abc views'', channel_entry ''UC3''])])
       (Key ''contents'') =
     Inr (JList [channel_entry ''UC2'', video_entry ''abcdefghijk'' ''abc views'',
                 channel_entry ''UC3'']) \<and>
   py_iter (JList [channel_entry ''UC2'', video_entry ''abcdefghijk'' ''abc views'',
                 channel_entry ''UC3'']) =
     Inr [channel_entry ''UC2'', video_entry ''abcdefghijk'' ''abc views'',
          channel_entry ''UC3''] \<and>
   parse_contents bad_second_page [channel_entry ''UC2'',
       video_entry ''abcdefghijk'' ''abc views'', channel_entry ''UC3''] [] = Inl ValueError \<and>
   truthy (s_current_continuation (snd (results bad_second_page query0)))"
  by code_simp

lemma bad_second_page_kept:
  "s_results (fetched (snd (results bad_second_page query0))
      (continuation_page [item_section [channel_entry ''UC2'',
            video_entry ''abcdefghijk'' ''abc views'', channel_entry ''UC3'']])) =
     Some [Channel ''https://www.youtube.com/channel/UC1'']"
  by code_simp

lemma empty_then_malformed_facts:
  "\<not> truthy_results (s_results (snd (results empty_then_malformed query0))) \<and>
   innertube_search empty_then_malformed (calls (snd (results empty_then_malformed query0)))
     (query (snd (results empty_then_malformed query0)))
     (param (snd (results empty_then_malformed query0))) JNull = Inr malformed \<and>
   s_initial_results (snd (results empty_then_malformed query0)) = JObj [] \<and>
   fst (results empty_then_malformed query0) = Inl KeyError"
  by code_simp

subsection \<open>The session and the parser\<close>

text \<open>
  C1. Two calls of \<open>results\<close> with no \<open>get_next_results\<close> between them, when the first
  page parsed to an empty list: the test \<^verbatim>\<open>if self._results:\<close> takes the empty list for
  "not fetched", so the second call asks the collaborator again and returns what the second
  answer holds.
\<close>

theorem results_refetch_on_empty:
  "fst (results empty_then_channel query0) = Inr (Some []) \<and>
   calls (snd (results empty_then_channel query0)) = 1 \<and>
   fst (results empty_then_channel (snd (results empty_then_channel query0))) =
     Inr (Some [Channel ''https://www.youtube.com/channel/UC1'']) \<and>
   calls (snd (results empty_then_channel (snd (results empty_then_channel query0)))) = 2"
  by code_simp

text \<open>
  C2. After the first fetch returned the list \<open>first\<close>, \<open>n\<close> successive calls of
  \<open>get_next_results\<close> that all return leave \<open>first\<close> followed by what the \<open>n\<close>
  documents they fetched contribute, document after document in call order and, within a
  document, entry after entry in the order of its item section, a skipped entry
  contributing nothing. When the first fetch was made by this call of \<open>results\<close>, the
  whole list is that of the \<open>n + 1\<close> documents, the first one included.
\<close>

theorem accumulated_results:
  "(results env s = (Inr (Some first), s1) \<and> get_next_results_n env n s1 = (Inr (), s2)
      \<longrightarrow> s_results s2 =
            Some (first @ concat (map (\<lambda>raw. List.map_filter (entry_result env) (entries_of raw))
              (documents env (query s1) (param s1) (calls s1) (s_current_continuation s1) n))) \<and>
          length (documents env (query s1) (param s1) (calls s1) (s_current_continuation s1) n)
            = n) \<and>
   (\<not> truthy_results (s_results s) \<and> results env s = (Inr (Some first), s1) \<and>
    get_next_results_n env n s1 = (Inr (), s2)
      \<longrightarrow> s_results s2 =
            Some (concat (map (\<lambda>raw. List.map_filter (entry_result env) (entries_of raw))
              (documents env (query s) (param s) (calls s) JNull (Suc n)))) \<and>
          length (documents env (query s) (param s) (calls s) JNull (Suc n)) = Suc n)"
proof -
  have ex: "extracted env = (\<lambda>raw. List.map_filter (entry_result env) (entries_of raw))"
    by (simp add: fun_eq_iff extracted_def)
  show ?thesis
  proof (intro conjI impI)
    assume h: "results env s = (Inr (Some first), s1) \<and>
      get_next_results_n env n s1 = (Inr (), s2)"
    then have "s_results s1 = Some first" using results_Some[of env s "Some first" s1] by simp
    with h get_next_results_n_documents[of env n s1 "()" s2 first]
    show "s_results s2 =
            Some (first @ concat (map (\<lambda>raw. List.map_filter (entry_result env) (entries_of raw))
              (documents env (query s1) (param s1) (calls s1) (s_current_continuation s1) n)))"
      and "length (documents env (query s1) (param s1) (calls s1) (s_current_continuation s1) n)
            = n"
      by (simp_all add: ex)
  next
    assume h: "\<not> truthy_results (s_results s) \<and> results env s = (Inr (Some first), s1) \<and>
      get_next_results_n env n s1 = (Inr (), s2)"
    with results_first_document[of s env first s1] obtain raw where
      raw: "innertube_search env (calls s) (query s) (param s) JNull = Inr raw"
      and f: "first = extracted env raw" "s_results s1 = Some first" "query s1 = query s"
        "param s1 = param s" "calls s1 = Suc (calls s)" "s_current_continuation s1 = token_of raw"
      by blast
    from h f(2) get_next_results_n_documents[of env n s1 "()" s2 first]
    have "s_results s2 = Some (first @ concat (map (extracted env)
       (documents env (query s1) (param s1) (calls s1) (s_current_continuation s1) n)))"
      and "length (documents env (query s1) (param s1) (calls s1) (s_current_continuation s1) n)
        = n"
      by simp_all
    with raw f
    have "s_results s2 = Some (concat (map (extracted env)
            (documents env (query s) (param s) (calls s) JNull (Suc n))))"
      and l: "length (documents env (query s) (param s) (calls s) JNull (Suc n)) = Suc n"
      by simp_all
    then show "s_results s2 =
            Some (concat (map (\<lambda>raw. List.map_filter (entry_result env) (entries_of raw))
              (documents env (query s) (param s) (calls s) JNull (Suc n))))"
      by (simp only: ex)
    from l show "length (documents env (query s) (param s) (calls s) JNull (Suc n)) = Suc n" .
  qed
qed

theorem accumulated_results_witness:
  "s_results (snd (get_next_results_n ordered_pages 2 (snd (results ordered_pages query0)))) =
     Some [Channel ''https://www.youtube.com/channel/UCA'',
           Channel ''https://www.youtube.com/channel/UCB'',
           Channel ''https://www.youtube.com/channel/UCC'',
           Channel ''https://www.youtube.com/channel/UCD'',
           Channel ''https://www.youtube.com/channel/UCE'',
           Channel ''https://www.youtube.com/channel/UCF''] \<and>
   length (documents ordered_pages ''q'' None 0 JNull 3) = 3 \<and>
   entries_of (continuation_page [item_section [channel_entry ''UCC'', unknown_entry,
                 channel_entry ''UCD''], continuation_item ''t2'']) =
     [channel_entry ''UCC'', unknown_entry, channel_entry ''UCD'']"
proof -
  let ?s1 = "snd (results ordered_pages query0)"
  let ?s2 = "snd (get_next_results_n ordered_pages 2 ?s1)"
  from accumulated_results[where env=ordered_pages and s=query0 and ?s1.0="?s1" and n=2
      and ?s2.0="?s2" and first="[Channel ''https://www.youtube.com/channel/UCA'',
                 Channel ''https://www.youtube.com/channel/UCB'']"] ordered_pages_run
  have "s_results ?s2 =
      Some (concat (map (\<lambda>raw. List.map_filter (entry_result ordered_pages) (entries_of raw))
        (documents ordered_pages (query query0) (param query0) (calls query0) JNull (Suc 2))))"
    and "length (documents ordered_pages (query query0) (param query0) (calls query0) JNull
        (Suc 2)) = Suc 2"
    by blast+
  with ordered_pages_run have "s_results ?s2 =
      Some (concat (map (\<lambda>raw. List.map_filter (entry_result ordered_pages) (entries_of raw))
        (documents ordered_pages ''q'' None 0 JNull 3)))"
    and 2: "length (documents ordered_pages ''q'' None 0 JNull 3) = 3"
    by (simp_all add: numeral_3_eq_3 numeral_2_eq_2)
  then have 1: "s_results ?s2 = Some [Channel ''https://www.youtube.com/channel/UCA'',
           Channel ''https://www.youtube.com/channel/UCB'',
           Channel ''https://www.youtube.com/channel/UCC'',
           Channel ''https://www.youtube.com/channel/UCD'',
           Channel ''https://www.youtube.com/channel/UCE'',
           Channel ''https://www.youtube.com/channel/UCF'']"
    by (simp only: ordered_pages_extracted)
  from 1 2 ordered_pages_entries show ?thesis by blast
qed

text \<open>
  C3, as amended. \<open>get_next_results\<close> raises IndexError and leaves the session as it
  is, with no request made, exactly when the stored continuation does not count as true:
  on a new session, when the continuation is \<^verbatim>\<open>None\<close> (as it is after a page with no
  continuation item), and also when it is an empty token such as the empty string. With a
  continuation that counts as true a request is always made.
\<close>

theorem next_results_exhausted:
  "get_next_results env (Search q p) = (Inl IndexError, Search q p) \<and>
   ((get_next_results env s = (Inl IndexError, s)) = (\<not> truthy (s_current_continuation s))) \<and>
   (s_current_continuation s = JNull \<or> s_current_continuation s = JStr ''''
      \<longrightarrow> get_next_results env s = (Inl IndexError, s)) \<and>
   (truthy (s_current_continuation s) \<longrightarrow> calls (snd (get_next_results env s)) = Suc (calls s)) \<and>
   (get_next_results env s = (Inr (), s1) \<and>
    fst (fetch_and_parse env s (s_current_continuation s)) = Inr (vs, JNull)
      \<longrightarrow> get_next_results env s1 = (Inl IndexError, s1)) \<and>
   (\<not> truthy_results (s_results s) \<and> results env s = (Inr vs, s1) \<and>
    fst (fetch_and_parse env s JNull) = Inr (vs, JNull)
      \<longrightarrow> get_next_results env s1 = (Inl IndexError, s1))"
proof (intro conjI impI)
  show "get_next_results env (Search q p) = (Inl IndexError, Search q p)"
    by (simp add: get_next_results_def Search_def)
  show "(get_next_results env s = (Inl IndexError, s)) = (\<not> truthy (s_current_continuation s))"
  proof
    assume h: "get_next_results env s = (Inl IndexError, s)"
    show "\<not> truthy (s_current_continuation s)"
    proof
      assume "truthy (s_current_continuation s)"
      from calls_get_next_results[OF this, of env] h show False by simp
    qed
  next
    assume "\<not> truthy (s_current_continuation s)"
    then show "get_next_results env s = (Inl IndexError, s)"
      by (simp add: get_next_results_def)
  qed
  show "get_next_results env s = (Inl IndexError, s)"
    if "s_current_continuation s = JNull \<or> s_current_continuation s = JStr ''''"
    using that by (auto simp: get_next_results_def)
  show "calls (snd (get_next_results env s)) = Suc (calls s)" if "truthy (s_current_continuation s)"
    using that by (rule calls_get_next_results)
  show "get_next_results env s1 = (Inl IndexError, s1)"
    if h: "get_next_results env s = (Inr (), s1) \<and>
      fst (fetch_and_parse env s (s_current_continuation s)) = Inr (vs, JNull)"
  proof -
    from h get_next_results_Inr[of env s "()" s1] obtain raw rs ws c where
      r: "innertube_search env (calls s) (query s) (param s) (s_current_continuation s) = Inr raw"
      "parse_raw_results env raw = Inr (Some ws, c)"
      "s1 = (fetched s raw)\<lparr>s_results := Some (rs @ ws), s_current_continuation := c\<rparr>"
      by blast
    with h have "c = JNull" by (simp add: fetch_and_parse_Inr)
    with r show ?thesis by (simp add: get_next_results_def)
  qed
  show "get_next_results env s1 = (Inl IndexError, s1)"
    if h: "\<not> truthy_results (s_results s) \<and> results env s = (Inr vs, s1) \<and>
      fst (fetch_and_parse env s JNull) = Inr (vs, JNull)"
  proof -
    from h have "s_current_continuation s1 = JNull"
      by (auto simp: results_def split: prod.splits sum.splits)
    then show ?thesis by (simp add: get_next_results_def)
  qed
qed

theorem next_results_exhausted_witness:
  "get_next_results three_pages query0 = (Inl IndexError, query0) \<and>
   calls (snd (get_next_results three_pages (snd (results three_pages query0)))) = 2 \<and>
   get_next_results three_pages
       (snd (get_next_results_n three_pages 2 (snd (results three_pages query0)))) =
     (Inl IndexError,
      snd (get_next_results_n three_pages 2 (snd (results three_pages query0)))) \<and>
   get_next_results no_continuation (snd (results no_continuation query0)) =
     (Inl IndexError, snd (results no_continuation query0)) \<and>
   get_next_results no_continuation query0 = (Inl IndexError, query0) \<and>
   \<not> truthy (s_current_continuation query0) \<and>
   get_next_results empty_token (snd (results empty_token query0)) =
     (Inl IndexError, snd (results empty_token query0))"
proof -
  let ?s1 = "snd (results three_pages query0)"
  let ?s2 = "snd (get_next_results three_pages ?s1)"
  let ?s3 = "snd (get_next_results_n three_pages 2 ?s1)"
  let ?t1 = "snd (results no_continuation query0)"
  let ?u1 = "snd (results empty_token query0)"
  have q: "query0 = Search ''q'' None" by (simp add: query0_def)
  from next_results_exhausted[where env=three_pages and q="''q''" and p=None] q
  have 1: "get_next_results three_pages query0 = (Inl IndexError, query0)" by simp
  have "truthy (s_current_continuation ?s1)" by (simp add: three_pages_results)
  with next_results_exhausted[where env=three_pages and s="?s1"]
  have 2: "calls (snd (get_next_results three_pages ?s1)) = 2"
    by (simp add: three_pages_results)
  have "get_next_results three_pages ?s2 = (Inr (), ?s3)"
    by (rule three_pages_second_next)
  with next_results_exhausted[where env=three_pages and s="?s2" and ?s1.0="?s3"
      and vs="Some [Channel ''https://www.youtube.com/channel/UC3'']"] three_pages_last_fetch
  have 3: "get_next_results three_pages ?s3 = (Inl IndexError, ?s3)" by blast
  from next_results_exhausted[where env=no_continuation and s=query0 and ?s1.0="?t1"
      and vs="Some []"] no_continuation_results
  have 4: "get_next_results no_continuation ?t1 = (Inl IndexError, ?t1)" by blast
  have "\<not> truthy (s_current_continuation query0)" by (simp add: query0_def Search_def)
  with next_results_exhausted[where env=no_continuation and s=query0]
  have 5: "get_next_results no_continuation query0 = (Inl IndexError, query0)" by blast
  with next_results_exhausted[where env=no_continuation and s=query0]
  have 6: "\<not> truthy (s_current_continuation query0)" by blast
  from next_results_exhausted[where env=empty_token and s="?u1"] empty_token_run
  have 7: "get_next_results empty_token ?u1 = (Inl IndexError, ?u1)" by blast
  from 1 2 3 4 5 6 7 show ?thesis by blast
qed

text \<open>
  C3 as stated fails: after a first page whose continuation item carries the empty
  string as token, the session is not new and its continuation is not \<^verbatim>\<open>None\<close>, and
  \<open>get_next_results\<close> raises IndexError with no request made and the session unchanged.
\<close>

theorem empty_token_exhausts:
  "fst (results empty_token query0) =
     Inr (Some [Channel ''https://www.youtube.com/channel/UC1'']) \<and>
   calls (snd (results empty_token query0)) = 1 \<and>
   s_current_continuation (snd (results empty_token query0)) = JStr '''' \<and>
   JStr '''' \<noteq> JNull \<and>
   get_next_results empty_token (snd (results empty_token query0)) =
     (Inl IndexError, snd (results empty_token query0))"
  by code_simp

text \<open>
  C4, as amended. An entry of no known variant is skipped and the entries after it are
  parsed as if it were not there. An exception raised by an entry is not contained: it is
  the outcome of the loop over the entries, and \<open>fetch_and_parse\<close>, \<open>results\<close> and
  \<open>get_next_results\<close> raise it, leaving the session \<open>fetched s raw\<close> (results and
  continuation as before the call). A video entry with a simple view-count text raises
  ValueError when the first word of the text, commas removed, is neither \<open>No\<close> nor an
  integer, and IndexError when the text has no word.
\<close>

theorem entry_failures:
  "(unrecognized d \<longrightarrow>
      parse_contents env (pre @ d # post) acc = parse_contents env (pre @ post) acc) \<and>
   (parse_contents env pre acc = Inr acc' \<and> parse_entry env d = Inl e \<longrightarrow>
      parse_contents env (pre @ d # post) acc = Inl e) \<and>
   (reaches_video kvs \<and> map_of kvs ''videoRenderer'' = Some (JObj r) \<and>
    fields_before_views (JObj r) \<and> map_of r ''viewCountText'' = Some (JObj vct) \<and>
    map_of vct ''runs'' = None \<and> map_of vct ''simpleText'' = Some (JStr t)
      \<longrightarrow> (split_words t = [] \<longrightarrow> parse_entry env (JObj kvs) = Inl IndexError) \<and>
          (split_words t = w # ws \<and> remove_commas w \<noteq> ''No'' \<and>
           py_int (remove_commas w) = Inl e
             \<longrightarrow> e = ValueError \<and> parse_entry env (JObj kvs) = Inl ValueError)) \<and>
   (innertube_search env (calls s) (query s) (param s) c = Inr raw \<and>
    locate_sections raw = Inr sections \<and> py_iter sections = Inr ss \<and>
    scan_sections ss JNull JNull = Inr (ir, cr) \<and> next_continuation_of cr = Inr tok \<and>
    getitem ir (Key ''contents'') = Inr contents \<and> py_iter contents = Inr cs \<and>
    parse_contents env cs [] = Inl e
      \<longrightarrow> fetch_and_parse env s c = (Inl e, fetched s raw) \<and>
          (c = JNull \<and> \<not> truthy_results (s_results s)
             \<longrightarrow> results env s = (Inl e, fetched s raw)) \<and>
          (c = s_current_continuation s \<and> truthy (s_current_continuation s)
             \<longrightarrow> get_next_results env s = (Inl e, fetched s raw)))"
proof (intro conjI impI)
  assume "unrecognized d"
  then have "parse_contents env (d # post) = parse_contents env post"
    by (simp add: fun_eq_iff parse_entry_unrecognized)
  then show "parse_contents env (pre @ d # post) acc = parse_contents env (pre @ post) acc"
    by (simp add: parse_contents_append)
next
  assume "parse_contents env pre acc = Inr acc' \<and> parse_entry env d = Inl e"
  then show "parse_contents env (pre @ d # post) acc = Inl e"
    by (simp add: parse_contents_append)
next
  assume v: "reaches_video kvs \<and> map_of kvs ''videoRenderer'' = Some (JObj r) \<and>
    fields_before_views (JObj r) \<and> map_of r ''viewCountText'' = Some (JObj vct) \<and>
    map_of vct ''runs'' = None \<and> map_of vct ''simpleText'' = Some (JStr t)"
  {
    assume "split_words t = []"
    then have "count_of_text (JStr t) = Inl IndexError" by (simp add: count_of_text_words)
    with v video_entry_view_failure[of kvs r vct t IndexError env]
    show "parse_entry env (JObj kvs) = Inl IndexError" by blast
  }
  assume w: "split_words t = w # ws \<and> remove_commas w \<noteq> ''No'' \<and>
      py_int (remove_commas w) = Inl e"
  then show e: "e = ValueError" using py_int_error[of "remove_commas w" e] by blast
  from w e have "count_of_text (JStr t) = Inl ValueError" by (simp add: count_of_text_words)
  with v video_entry_view_failure[of kvs r vct t ValueError env]
  show "parse_entry env (JObj kvs) = Inl ValueError" by blast
next
  assume h: "innertube_search env (calls s) (query s) (param s) c = Inr raw \<and>
    locate_sections raw = Inr sections \<and> py_iter sections = Inr ss \<and>
    scan_sections ss JNull JNull = Inr (ir, cr) \<and> next_continuation_of cr = Inr tok \<and>
    getitem ir (Key ''contents'') = Inr contents \<and> py_iter contents = Inr cs \<and>
    parse_contents env cs [] = Inl e"
  with page_failure[of env s c raw sections ss ir cr tok contents cs e]
  show fp: "fetch_and_parse env s c = (Inl e, fetched s raw)" by blast
  {
    assume "c = JNull \<and> \<not> truthy_results (s_results s)"
    with fp show "results env s = (Inl e, fetched s raw)" by (simp add: results_def)
  }
  assume "c = s_current_continuation s \<and> truthy (s_current_continuation s)"
  with fp show "get_next_results env s = (Inl e, fetched s raw)"
    by (simp add: get_next_results_def)
qed

theorem entry_failures_witness:
  "parse_contents (serving []) [channel_entry ''UC1'', unknown_entry, channel_entry ''UC2''] [] =
     Inr [Channel ''https://www.youtube.com/channel/UC1'',
          Channel ''https://www.youtube.com/channel/UC2''] \<and>
   parse_contents (serving [])
     [channel_entry ''UC1'', video_entry ''abcdefghijk'' ''abc views'', channel_entry ''UC2''] [] =
     Inl ValueError \<and>
   parse_entry (serving []) (video_entry ''abcdefghijk'' ''abc views'') = Inl ValueError \<and>
   parse_entry (serving []) (video_entry ''abcdefghijk'' '' '') = Inl IndexError \<and>
   results (with_views ''abc views'') query0 =
     (Inl ValueError,
      fetched query0 (initial_page [item_section [channel_entry ''UC1'',
         video_entry ''abcdefghijk'' ''abc views'', channel_entry ''UC2'']] [])) \<and>
   get_next_results bad_second_page (snd (results bad_second_page query0)) =
     (Inl ValueError,
      fetched (snd (results bad_second_page query0))
        (continuation_page [item_section [channel_entry ''UC2'',
            video_entry ''abcdefghijk'' ''abc views'', channel_entry ''UC3'']])) \<and>
   s_results (fetched (snd (results bad_second_page query0))
      (continuation_page [item_section [channel_entry ''UC2'',
            video_entry ''abcdefghijk'' ''abc views'', channel_entry ''UC3'']])) =
     Some [Channel ''https://www.youtube.com/channel/UC1'']"
proof -
  from entry_failures[where d=unknown_entry and env="serving []" and pre="[channel_entry ''UC1'']"
      and post="[channel_entry ''UC2'']" and acc="[]"] unknown_entry_unrecognized
  have "parse_contents (serving []) ([channel_entry ''UC1''] @ unknown_entry #
          [channel_entry ''UC2'']) [] =
        parse_contents (serving []) ([channel_entry ''UC1''] @ [channel_entry ''UC2'']) []"
    by blast
  then have 1: "parse_contents (serving [])
      [channel_entry ''UC1'', unknown_entry, channel_entry ''UC2''] [] =
     Inr [Channel ''https://www.youtube.com/channel/UC1'',
          Channel ''https://www.youtube.com/channel/UC2'']"
    by (simp only: append_Cons append_Nil channel_contents)
  from entry_failures[where env="serving []"
      and kvs="[(''videoRenderer'', JObj (video_renderer ''abcdefghijk'' ''abc views''))]"
      and r="video_renderer ''abcdefghijk'' ''abc views''"
      and vct="[(''simpleText'', JStr ''abc views'')]" and t="''abc views''"
      and w="''abc''" and ws="[''views'']" and e=ValueError] bad_video_facts
  have "parse_entry (serving [])
      (JObj [(''videoRenderer'', JObj (video_renderer ''abcdefghijk'' ''abc views''))]) =
      Inl ValueError"
    by blast
  then have 3: "parse_entry (serving []) (video_entry ''abcdefghijk'' ''abc views'') =
      Inl ValueError"
    by (simp only: video_entry_renderer)
  from entry_failures[where env="serving []"
      and kvs="[(''videoRenderer'', JObj (video_renderer ''abcdefghijk'' '' ''))]"
      and r="video_renderer ''abcdefghijk'' '' ''"
      and vct="[(''simpleText'', JStr '' '')]" and t="'' ''"] blank_video_facts
  have "parse_entry (serving [])
      (JObj [(''videoRenderer'', JObj (video_renderer ''abcdefghijk'' '' ''))]) = Inl IndexError"
    by blast
  then have 4: "parse_entry (serving []) (video_entry ''abcdefghijk'' '' '') = Inl IndexError"
    by (simp only: video_entry_renderer)
  from entry_failures[where d="video_entry ''abcdefghijk'' ''abc views''" and env="serving []"
      and pre="[channel_entry ''UC1'']" and post="[channel_entry ''UC2'']" and acc="[]"
      and acc'="[Channel ''https://www.youtube.com/channel/UC1'']" and e=ValueError]
    3 channel_contents(1)
  have "parse_contents (serving []) ([channel_entry ''UC1''] @
          video_entry ''abcdefghijk'' ''abc views'' # [channel_entry ''UC2'']) [] = Inl ValueError"
    by blast
  then have 2: "parse_contents (serving [])
     [channel_entry ''UC1'', video_entry ''abcdefghijk'' ''abc views'', channel_entry ''UC2''] [] =
     Inl ValueError"
    by (simp only: append_Cons append_Nil)
  from entry_failures[where env="with_views ''abc views''" and s=query0 and c=JNull
      and raw="initial_page [item_section [channel_entry ''UC1'',
         video_entry ''abcdefghijk'' ''abc views'', channel_entry ''UC2'']] []"
      and sections="JList [item_section [channel_entry ''UC1'',
            video_entry ''abcdefghijk'' ''abc views'', channel_entry ''UC2'']]"
      and ss="[item_section [channel_entry ''UC1'',
            video_entry ''abcdefghijk'' ''abc views'', channel_entry ''UC2'']]"
      and ir="JObj [(''contents'', JList [channel_entry ''UC1'',
            video_entry ''abcdefghijk'' ''abc views'', channel_entry ''UC2''])]"
      and cr=JNull and tok=JNull
      and contents="JList [channel_entry ''UC1'', video_entry ''abcdefghijk'' ''abc views'',
                 channel_entry ''UC2'']"
      and cs="[channel_entry ''UC1'', video_entry ''abcdefghijk'' ''abc views'',
          channel_entry ''UC2'']" and e=ValueError] with_views_page
  have 5: "results (with_views ''abc views'') query0 =
     (Inl ValueError,
      fetched query0 (initial_page [item_section [channel_entry ''UC1'',
         video_entry ''abcdefghijk'' ''abc views'', channel_entry ''UC2'']] []))"
    by blast
  from entry_failures[where env=bad_second_page and s="snd (results bad_second_page query0)"
      and c="s_current_continuation (snd (results bad_second_page query0))"
      and raw="continuation_page [item_section [channel_entry ''UC2'',
            video_entry ''abcdefghijk'' ''abc views'', channel_entry ''UC3'']]"
      and sections="JList [item_section [channel_entry ''UC2'',
            video_entry ''abcdefghijk'' ''abc views'', channel_entry ''UC3'']]"
      and ss="[item_section [channel_entry ''UC2'',
            video_entry ''abcdefghijk'' ''abc views'', channel_entry ''UC3'']]"
      and ir="JObj [(''contents'', JList [channel_entry ''UC2'',
            video_entry ''abcdefghijk'' ''abc views'', channel_entry ''UC3''])]"
      and cr=JNull and tok=JNull
      and contents="JList [channel_entry ''UC2'', video_entry ''abcdefghijk'' ''abc views'',
                 channel_entry ''UC3'']"
      and cs="[channel_entry ''UC2'', video_entry ''abcdefghijk'' ''abc views'',
          channel_entry ''UC3'']" and e=ValueError] bad_second_page_facts
  have 6: "get_next_results bad_second_page (snd (results bad_second_page query0)) =
     (Inl ValueError,
      fetched (snd (results bad_second_page query0))
        (continuation_page [item_section [channel_entry ''UC2'',
            video_entry ''abcdefghijk'' ''abc views'', channel_entry ''UC3'']]))"
    by blast
  from 1 2 3 4 5 6 bad_second_page_kept show ?thesis by blast
qed

text \<open>
  C4 as stated fails: a video entry whose view-count text is \<open>abc views\<close> makes
  \<open>results\<close> raise ValueError and leaves no result list, while the same page with
  \<open>12 views\<close> yields its three results.
\<close>

theorem view_count_failure_aborts_page:
  "count_of_text (JStr ''abc views'') = Inl ValueError \<and>
   fst (results (with_views ''abc views'') query0) = Inl ValueError \<and>
   s_results (snd (results (with_views ''abc views'') query0)) = None \<and>
   fst (results (with_views ''12 views'') query0) =
     Inr (Some [Channel ''https://www.youtube.com/channel/UC1'',
                YouTube ''https://www.youtube.com/watch?v=abcdefghijk'' (JStr ''an owner'')
                  (JStr ''a title''),
                Channel ''https://www.youtube.com/channel/UC2''])"
  by code_simp

text \<open>
  C6. When \<open>fetch_and_parse\<close> returns for a document whose sections are \<open>ss\<close>: if no
  section carries a continuation item the token is \<^verbatim>\<open>None\<close>; if no section carries an
  item section the result list is \<^verbatim>\<open>None\<close>; and if the item section is there with an
  empty list of entries the result list is the empty list.
\<close>

theorem absent_sections_none:
  "innertube_search env (calls s) (query s) (param s) c = Inr raw \<and>
   fst (fetch_and_parse env s c) = Inr (rs, tok) \<and>
   locate_sections raw = Inr sections \<and> py_iter sections = Inr ss
   \<longrightarrow> ((\<forall>x\<in>set ss. py_in ''continuationItemRenderer'' x = Inr False) \<longrightarrow> tok = JNull) \<and>
       ((\<forall>x\<in>set ss. py_in ''itemSectionRenderer'' x = Inr False) \<longrightarrow> rs = None) \<and>
       (last (JNull # renderers ''itemSectionRenderer'' ss) = JObj [(''contents'', JList [])]
          \<longrightarrow> rs = Some [])"
proof (intro impI, elim conjE)
  assume raw: "innertube_search env (calls s) (query s) (param s) c = Inr raw"
    and fp: "fst (fetch_and_parse env s c) = Inr (rs, tok)"
    and loc: "locate_sections raw = Inr sections" and it: "py_iter sections = Inr ss"
  from raw fp have "parse_raw_results env raw = Inr (rs, tok)"
    by (simp add: fetch_and_parse_Inr)
  from parse_raw_results_Inr[OF this loc it] obtain ir cr where
    sc: "scan_sections ss JNull JNull = Inr (ir, cr)"
    and nc: "next_continuation_of cr = Inr tok" and ro: "results_of env ir = Inr rs"
    by blast
  from scan_sections_renderers[OF sc]
  have ir: "ir = last (JNull # renderers ''itemSectionRenderer'' ss)"
    and cr: "cr = last (JNull # renderers ''continuationItemRenderer'' ss)"
    by simp_all
  show "((\<forall>x\<in>set ss. py_in ''continuationItemRenderer'' x = Inr False) \<longrightarrow> tok = JNull) \<and>
       ((\<forall>x\<in>set ss. py_in ''itemSectionRenderer'' x = Inr False) \<longrightarrow> rs = None) \<and>
       (last (JNull # renderers ''itemSectionRenderer'' ss) = JObj [(''contents'', JList [])]
          \<longrightarrow> rs = Some [])"
  proof (intro conjI impI)
    assume "\<forall>x\<in>set ss. py_in ''continuationItemRenderer'' x = Inr False"
    from renderers_absent[OF this] cr nc show "tok = JNull" by simp
  next
    assume "\<forall>x\<in>set ss. py_in ''itemSectionRenderer'' x = Inr False"
    from renderers_absent[OF this] ir ro show "rs = None" by simp
  next
    assume "last (JNull # renderers ''itemSectionRenderer'' ss) = JObj [(''contents'', JList [])]"
    with ir ro show "rs = Some []" by (simp add: results_of_def)
  qed
qed

theorem absent_sections_none_witness:
  "fst (fetch_and_parse no_item_section query0 JNull) = Inr (None, JStr ''t'') \<and>
   fst (fetch_and_parse no_continuation query0 JNull) = Inr (Some [], JNull)"
proof -
  have a: "\<forall>x\<in>set [continuation_item ''t'']. py_in ''itemSectionRenderer'' x = Inr False"
    by (simp add: continuation_item_def)
  have b: "\<forall>x\<in>set [item_section []]. py_in ''continuationItemRenderer'' x = Inr False"
    by (simp add: item_section_def)
  have c: "last (JNull # renderers ''itemSectionRenderer'' [item_section []]) =
      JObj [(''contents'', JList [])]"
    by (simp add: renderers_def item_section_def)
  obtain rs tok where f: "fst (fetch_and_parse no_item_section query0 JNull) = Inr (rs, tok)"
    "tok = JStr ''t''"
    using no_item_section_fetch by blast
  from absent_sections_none[where env=no_item_section and s=query0 and c=JNull
      and raw="initial_page [continuation_item ''t''] []" and rs=rs and tok=tok
      and sections="JList [continuation_item ''t'']" and ss="[continuation_item ''t'']"] a f
  have "rs = None" by (simp add: no_item_section_def)
  with f have 1: "fst (fetch_and_parse no_item_section query0 JNull) = Inr (None, JStr ''t'')"
    by simp
  obtain rs' tok' where g: "fst (fetch_and_parse no_continuation query0 JNull) = Inr (rs', tok')"
    using no_continuation_fetch by blast
  from absent_sections_none[where env=no_continuation and s=query0 and c=JNull
      and raw="initial_page [item_section []] []" and rs=rs' and tok=tok'
      and sections="JList [item_section []]" and ss="[item_section []]"] b c g
  have "tok' = JNull \<and> rs' = Some []" by (simp add: no_continuation_def)
  with g have 2: "fst (fetch_and_parse no_continuation query0 JNull) = Inr (Some [], JNull)"
    by simp
  from 1 2 show ?thesis by simp
qed

text \<open>
  C7. When the item section of the fetched document holds only entries of the discarded
  variants, \<open>fetch_and_parse\<close> returns the empty list (not \<^verbatim>\<open>None\<close>), and the token is read
  from the continuation item alone: it is the item's token when there is an item, and
  \<^verbatim>\<open>None\<close> otherwise.
\<close>

theorem discard_only_page:
  "innertube_search env (calls s) (query s) (param s) c = Inr raw \<and>
   locate_sections raw = Inr sections \<and> py_iter sections = Inr ss \<and>
   scan_sections ss JNull JNull = Inr (JObj ir, cr) \<and>
   map_of ir ''contents'' = Some contents \<and> py_iter contents = Inr cs \<and>
   list_all discard_variant cs \<and> next_continuation_of cr = Inr tok
   \<longrightarrow> fst (fetch_and_parse env s c) = Inr (Some [], tok) \<and>
       (truthy cr \<longrightarrow> getpath cr [Key ''continuationEndpoint'', Key ''continuationCommand'',
                                    Key ''token''] = Inr tok) \<and>
       (\<not> truthy cr \<longrightarrow> tok = JNull)"
proof (intro impI, elim conjE)
  assume raw: "innertube_search env (calls s) (query s) (param s) c = Inr raw"
    and loc: "locate_sections raw = Inr sections" and it: "py_iter sections = Inr ss"
    and sc: "scan_sections ss JNull JNull = Inr (JObj ir, cr)"
    and co: "map_of ir ''contents'' = Some contents" and ci: "py_iter contents = Inr cs"
    and dv: "list_all discard_variant cs" and nc: "next_continuation_of cr = Inr tok"
  from co have "ir \<noteq> []" by auto
  with co ci dv have "results_of env (JObj ir) = Inr (Some [])"
    by (simp add: results_of_def parse_contents_discard)
  with loc it sc nc have "parse_raw_results env raw = Inr (Some [], tok)"
    by (simp add: parse_raw_results_def)
  with raw have 1: "fst (fetch_and_parse env s c) = Inr (Some [], tok)"
    by (simp add: fetch_and_parse_Inr)
  from nc have 2: "truthy cr \<longrightarrow> getpath cr [Key ''continuationEndpoint'',
      Key ''continuationCommand'', Key ''token''] = Inr tok"
    by (auto simp: next_continuation_of_def simp del: getpath.simps split: if_splits)
  from nc have 3: "\<not> truthy cr \<longrightarrow> tok = JNull"
    by (auto simp: next_continuation_of_def)
  from 1 2 3 show "fst (fetch_and_parse env s c) = Inr (Some [], tok) \<and>
       (truthy cr \<longrightarrow> getpath cr [Key ''continuationEndpoint'', Key ''continuationCommand'',
                                    Key ''token''] = Inr tok) \<and>
       (\<not> truthy cr \<longrightarrow> tok = JNull)"
    by blast
qed

theorem discard_only_page_witness:
  "fst (fetch_and_parse discards_only query0 JNull) = Inr (Some [], JStr ''t'') \<and>
   getpath (JObj [(''continuationEndpoint'',
                   JObj [(''continuationCommand'', JObj [(''token'', JStr ''t'')])])])
     [Key ''continuationEndpoint'', Key ''continuationCommand'', Key ''token''] = Inr (JStr ''t'')"
proof -
  let ?cr = "JObj [(''continuationEndpoint'',
                 JObj [(''continuationCommand'', JObj [(''token'', JStr ''t'')])])]"
  have nc: "next_continuation_of ?cr = Inr (JStr ''t'')"
    by (simp add: next_continuation_of_def)
  from discard_only_page[where env=discards_only and s=query0 and c=JNull
      and raw="initial_page [item_section [shelf_entry, ad_entry], continuation_item ''t''] []"
      and sections="JList [item_section [shelf_entry, ad_entry], continuation_item ''t'']"
      and ss="[item_section [shelf_entry, ad_entry], continuation_item ''t'']"
      and ir="[(''contents'', JList [shelf_entry, ad_entry])]" and cr="?cr"
      and contents="JList [shelf_entry, ad_entry]" and cs="[shelf_entry, ad_entry]"
      and tok="JStr ''t''"]
    discard_examples discards_only_scan nc
  show ?thesis by (simp add: discards_only_def del: getpath.simps)
qed

text \<open>
  C8. The value \<open>completion_suggestions\<close> returns is not stable across
  \<open>get_next_results\<close>: it reads the first document only under \<^verbatim>\<open>if self.results:\<close>, and
  an empty result list counts as false. When the first page has an item section with no
  result (a shelf only), it returns \<^verbatim>\<open>None\<close>; after one \<open>get_next_results\<close> that brings a
  result it returns the suggestions of the first document.
\<close>

theorem suggestions_change_after_empty_page:
  "fst (completion_suggestions shelf_first query0) = Inr JNull \<and>
   fst (get_next_results shelf_first (snd (completion_suggestions shelf_first query0))) = Inr () \<and>
   fst (completion_suggestions shelf_first
     (snd (get_next_results shelf_first (snd (completion_suggestions shelf_first query0))))) =
     Inr (JList [JStr ''x''])"
  by code_simp

text \<open>
  What does hold of the suggestions: on every session a caller can reach, no number of
  calls of \<open>get_next_results\<close> changes the stored first document or the cached
  suggestions; once \<open>completion_suggestions\<close> has returned \<open>v\<close> on a session whose
  results are not empty, it returns \<open>v\<close> again after any number of such calls; and on a new
  session the value is \<^verbatim>\<open>None\<close> or what the document of the first request holds under
  \<open>refinements\<close>.
\<close>

lemma suggestions_kept:
  "(reachable env s \<longrightarrow>
      s_initial_results (after_calls env n s) = s_initial_results s \<and>
      s_completion_suggestions (after_calls env n s) = s_completion_suggestions s) \<and>
   (completion_suggestions env s = (Inr v, s1) \<and> truthy_results (s_results s1) \<longrightarrow>
      completion_suggestions env (after_calls env n s1) = (Inr v, after_calls env n s1)) \<and>
   (completion_suggestions env (Search q p) = (Inr v, s1) \<longrightarrow>
      v = JNull \<or> (\<exists>raw. innertube_search env 0 q p JNull = Inr raw \<and>
                         getitem raw (Key ''refinements'') = Inr v))"
proof (intro conjI impI)
  assume "reachable env s"
  then show "s_initial_results (after_calls env n s) = s_initial_results s"
    by (rule after_calls_initial)
next
  show "s_completion_suggestions (after_calls env n s) = s_completion_suggestions s"
    by (induction n arbitrary: s) (simp_all add: get_next_results_frame)
next
  assume "completion_suggestions env s = (Inr v, s1) \<and> truthy_results (s_results s1)"
  then have "settled v s1" using completion_suggestions_settled[of env s v s1] by blast
  then have "settled v (after_calls env n s1)" by (rule settled_after_calls)
  then show "completion_suggestions env (after_calls env n s1) = (Inr v, after_calls env n s1)"
    by (rule settled_completion_suggestions)
next
  assume "completion_suggestions env (Search q p) = (Inr v, s1)"
  then show "v = JNull \<or> (\<exists>raw. innertube_search env 0 q p JNull = Inr raw \<and>
                         getitem raw (Key ''refinements'') = Inr v)"
    by (rule fresh_suggestions)
qed

lemma suggestions_kept_example:
  "s_initial_results (after_calls three_pages 2 (snd (completion_suggestions three_pages query0)))
     = initial_page [item_section [channel_entry ''UC1''], continuation_item ''t1''] [JStr ''x''] \<and>
   completion_suggestions three_pages
       (after_calls three_pages 2 (snd (completion_suggestions three_pages query0))) =
     (Inr (JList [JStr ''x'']),
      after_calls three_pages 2 (snd (completion_suggestions three_pages query0))) \<and>
   calls (after_calls three_pages 2 (snd (completion_suggestions three_pages query0))) = 3 \<and>
   getitem (initial_page [item_section [channel_entry ''UC1''], continuation_item ''t1'']
              [JStr ''x'']) (Key ''refinements'') = Inr (JList [JStr ''x''])"
proof -
  let ?s1 = "snd (completion_suggestions three_pages query0)"
  let ?doc = "initial_page [item_section [channel_entry ''UC1''], continuation_item ''t1'']
                [JStr ''x'']"
  have q: "query0 = Search ''q'' None" by (simp add: query0_def)
  have "reachable three_pages (Search ''q'' None)" by (rule reachable.new)
  then have r: "reachable three_pages ?s1" unfolding q by (rule reachable.by_suggestions)
  from suggestions_kept[where env=three_pages and s="?s1" and n=2] r
    three_pages_suggestions
  have 1: "s_initial_results (after_calls three_pages 2 ?s1) = ?doc" by simp
  from suggestions_kept[where env=three_pages and s=query0 and ?s1.0="?s1" and n=2
      and v="JList [JStr ''x'']"] three_pages_suggestions
  have 2: "completion_suggestions three_pages (after_calls three_pages 2 ?s1) =
     (Inr (JList [JStr ''x'']), after_calls three_pages 2 ?s1)"
    by blast
  from suggestions_kept[where env=three_pages and q="''q''" and p=None
      and ?s1.0="?s1" and v="JList [JStr ''x'']"] three_pages_suggestions q
  have "\<exists>raw. innertube_search three_pages 0 ''q'' None JNull = Inr raw \<and>
          getitem raw (Key ''refinements'') = Inr (JList [JStr ''x''])"
    by auto
  with three_pages_suggestions
  have 3: "getitem ?doc (Key ''refinements'') = Inr (JList [JStr ''x''])" by auto
  from 1 2 3 three_pages_calls_made show ?thesis by blast
qed

text \<open>
  C9, as amended. When the fetched document \<open>raw\<close> has neither envelope,
  \<open>fetch_and_parse\<close>, \<open>results\<close> and \<open>get_next_results\<close> raise the exception of the lookup
  and leave the session \<open>fetched s raw\<close>: the results, the continuation, the cached
  suggestions, the query and the filter are those of \<open>s\<close>; the stored first document is
  that of \<open>s\<close> when it counts as true, and \<open>raw\<close> when it does not (when it is
  \<^verbatim>\<open>None\<close>, or an empty dict stored by an earlier failed fetch).
\<close>

theorem malformed_envelope_state:
  "(innertube_search env (calls s) (query s) (param s) c = Inr raw \<and> locate_sections raw = Inl e
      \<longrightarrow> fetch_and_parse env s c = (Inl e, fetched s raw)) \<and>
   (\<not> truthy_results (s_results s) \<and>
    innertube_search env (calls s) (query s) (param s) JNull = Inr raw \<and>
    locate_sections raw = Inl e
      \<longrightarrow> results env s = (Inl e, fetched s raw)) \<and>
   (truthy (s_current_continuation s) \<and>
    innertube_search env (calls s) (query s) (param s) (s_current_continuation s) = Inr raw \<and>
    locate_sections raw = Inl e
      \<longrightarrow> get_next_results env s = (Inl e, fetched s raw))"
  by (simp add: results_def get_next_results_def fetch_and_parse_Inr parse_raw_results_malformed)

theorem malformed_envelope_state_witness:
  "fetch_and_parse (serving [malformed]) query0 JNull =
     (Inl KeyError, fetched query0 malformed) \<and>
   results (serving [malformed]) query0 = (Inl KeyError, fetched query0 malformed) \<and>
   get_next_results then_malformed (snd (results then_malformed query0)) =
     (Inl KeyError, fetched (snd (results then_malformed query0)) malformed) \<and>
   s_initial_results (fetched (snd (results then_malformed query0)) malformed) =
     s_initial_results (snd (results then_malformed query0)) \<and>
   results empty_then_malformed (snd (results empty_then_malformed query0)) =
     (Inl KeyError, fetched (snd (results empty_then_malformed query0)) malformed) \<and>
   s_initial_results (snd (results empty_then_malformed query0)) = JObj [] \<and>
   s_initial_results (fetched (snd (results empty_then_malformed query0)) malformed) = malformed"
proof -
  let ?s = "snd (results then_malformed query0)"
  let ?u = "snd (results empty_then_malformed query0)"
  from malformed_envelope_state[where env="serving [malformed]" and s=query0 and c=JNull
      and raw=malformed and e=KeyError] then_malformed_first
  have 1: "fetch_and_parse (serving [malformed]) query0 JNull =
     (Inl KeyError, fetched query0 malformed)"
    "results (serving [malformed]) query0 = (Inl KeyError, fetched query0 malformed)"
    by blast+
  from malformed_envelope_state[where env=then_malformed and s="?s" and raw=malformed
      and e=KeyError] then_malformed_first
  have 2: "get_next_results then_malformed ?s = (Inl KeyError, fetched ?s malformed)"
    by blast
  from then_malformed_first
  have 3: "s_initial_results (fetched ?s malformed) = s_initial_results ?s"
    by (simp add: fetched_def)
  from malformed_envelope_state[where env=empty_then_malformed and s="?u" and raw=malformed
      and e=KeyError] then_malformed_first empty_then_malformed_facts
  have 4: "results empty_then_malformed ?u = (Inl KeyError, fetched ?u malformed)"
    by blast
  from empty_then_malformed_facts
  have 5: "s_initial_results ?u = JObj []" "s_initial_results (fetched ?u malformed) = malformed"
    by (simp_all add: fetched_def)
  from 1 2 3 4 5 show ?thesis by blast
qed

text \<open>
  C9 as stated fails: on a new session whose first request is answered by a document with
  neither envelope, \<open>results\<close> raises KeyError and the document is stored as the first
  document, which was \<^verbatim>\<open>None\<close> before the call.
\<close>

theorem malformed_first_page_is_stored:
  "locate_sections malformed = Inl KeyError \<and>
   fst (results (serving [malformed]) query0) = Inl KeyError \<and>
   s_initial_results query0 = JNull \<and>
   s_initial_results (snd (results (serving [malformed]) query0)) = malformed \<and>
   malformed \<noteq> JNull"
  by code_simp

end
